theory Spec2Isabelle
  imports Main
begin

section \<open>Scheme values (scheme\_primitives.py)\<close>

text \<open>
  The interpreter represents Scheme data by Python objects: numbers by \<open>int\<close>, booleans by
  \<open>bool\<close>, symbols by \<open>str\<close>, the unspecified value by \<open>None\<close>, and lists by the classes
  \<open>Pair\<close> and \<open>NULL\<close>. One datatype collects them, with one constructor per Python type.
  Floating-point numbers are left out. Pairs are taken as immutable values: the evaluator
  never assigns to the fields of a \<open>Pair\<close>.

  The primitive procedures covered are the numeric ones needed by the examples and the two
  environment-aware ones of \<open>create_global_frame\<close>, \<open>eval\<close> and \<open>apply\<close>.
\<close>

datatype prim = PAdd | PSub | PMul | PNumEq | PLt | PEval | PApply

datatype val =
    Num int
  | Boolean bool
  | Sym string
  | NULL
  | SPair val val
  | PyNone
  | PrimitiveProcedure prim
  | LambdaProcedure val val nat
  | EOF

text \<open>
  \<open>LambdaProcedure formals body env\<close>: the third field is the reference to the frame in
  which the procedure was created.

  Python exceptions are values. A \<open>SchemeError\<close> carries its message; the messages are
  kept as tags, together with the value that the message text is formatted from.
\<close>

datatype msg =
    Undefined_expression
  | Unknown_identifier string
  | Malformed_list val
  | Cannot_call val
  | Wrong_type_of_argument
  | Too_few_operands
  | Too_many_operands
  | Else_must_be_last
  | Badly_formed_else
  | Bad_bindings
  | Length_improper
  | Index_out_of_bounds
  | Ill_formed_list
  | Formal_pair
  | Formal_same_name
  | Formal_number
  | Too_many_elements_in_pair
  | Unexpected_eof
  | Unexpected_token val
  | Not_a_number nat val

datatype error =
    SchemeError msg
  | TypeError
  | AttributeError
  | IndexError
  | Badly_formed_expression val
  | RecursionError

text \<open>
  \<open>Badly_formed_expression\<close> is the plain \<open>Exception\<close> that \<open>check_form\<close> raises,
  \<open>RecursionError\<close> is Python's failure when the call stack exceeds its limit.
\<close>

type_synonym 'a result = "error + 'a"

fun bnd :: "'a result \<Rightarrow> ('a \<Rightarrow> 'b result) \<Rightarrow> 'b result" where
  "bnd (Inl e) f = Inl e"
| "bnd (Inr x) f = f x"

subsection \<open>Type predicates\<close>

fun scheme_booleanp :: "val \<Rightarrow> bool" where
  "scheme_booleanp (Boolean b) = True"
| "scheme_booleanp v = False"

text \<open>\<open>isinstance(x, int)\<close> holds of a Python \<open>bool\<close> as well.\<close>

fun scheme_numberp :: "val \<Rightarrow> bool" where
  "scheme_numberp (Num n) = True"
| "scheme_numberp (Boolean b) = True"
| "scheme_numberp v = False"

fun scheme_symbolp :: "val \<Rightarrow> bool" where
  "scheme_symbolp (Sym x) = True"
| "scheme_symbolp v = False"

fun scheme_nullp :: "val \<Rightarrow> bool" where
  "scheme_nullp NULL = True"
| "scheme_nullp v = False"

fun scheme_pairp :: "val \<Rightarrow> bool" where
  "scheme_pairp (SPair a b) = True"
| "scheme_pairp v = False"

definition scheme_atomp :: "val \<Rightarrow> bool" where
  "scheme_atomp x =
     (if scheme_booleanp x then True
      else if scheme_numberp x then True
      else if scheme_symbolp x then True
      else if scheme_nullp x then True
      else False)"

fun scheme_listp :: "val \<Rightarrow> bool" where
  "scheme_listp NULL = True"
| "scheme_listp (SPair a b) = scheme_listp b"
| "scheme_listp v = False"

subsection \<open>Attribute access and the methods of Pair and NULL\<close>

fun first :: "val \<Rightarrow> val result" where
  "first (SPair a b) = Inr a"
| "first v = Inl AttributeError"

fun second :: "val \<Rightarrow> val result" where
  "second (SPair a b) = Inr b"
| "second v = Inl AttributeError"

text \<open>\<open>Pair.__len__\<close>: the number of cells, an error on an improper list.\<close>

fun pair_len :: "val \<Rightarrow> nat result" where
  "pair_len (SPair a b) =
     (case b of
        SPair c d \<Rightarrow> bnd (pair_len b) (\<lambda>n. Inr (Suc n))
      | NULL \<Rightarrow> Inr 1
      | _ \<Rightarrow> Inl (SchemeError Length_improper))"
| "pair_len v = Inl AttributeError"

text \<open>The builtin \<open>len\<close>, on the Python types of the model.\<close>

fun py_len :: "val \<Rightarrow> nat result" where
  "py_len (SPair a b) = pair_len (SPair a b)"
| "py_len NULL = Inr 0"
| "py_len (Sym x) = Inr (length x)"
| "py_len v = Inl TypeError"

text \<open>
  \<open>Pair.__getitem__\<close> and \<open>NULL.__getitem__\<close>. Every call site passes a non-negative
  index, so the index is a \<open>nat\<close>.
\<close>

fun pair_getitem :: "val \<Rightarrow> nat \<Rightarrow> val result" where
  "pair_getitem y 0 = first y"
| "pair_getitem y (Suc k) =
     (case y of
        SPair a b \<Rightarrow>
          (if b = NULL then Inl (SchemeError Index_out_of_bounds)
           else if \<not> scheme_pairp b then Inl (SchemeError Ill_formed_list)
           else pair_getitem b k)
      | _ \<Rightarrow> Inl AttributeError)"

text \<open>Subscription \<open>v[k]\<close>; a string yields the one-character string at \<open>k\<close>.\<close>

fun py_getitem :: "val \<Rightarrow> nat \<Rightarrow> val result" where
  "py_getitem (SPair a b) k = pair_getitem (SPair a b) k"
| "py_getitem NULL k = Inl (SchemeError Index_out_of_bounds)"
| "py_getitem (Sym x) k = (if k < length x then Inr (Sym [x ! k]) else Inl IndexError)"
| "py_getitem v k = Inl TypeError"

text \<open>
  Iteration. \<open>Pair.__iter__\<close> is a generator: it yields the elements of the chain and
  fails with an AttributeError when it reaches an improper tail. The result is the list of
  the elements yielded and the error that ends the iteration, if any.
\<close>

fun pair_iter :: "val \<Rightarrow> val list \<times> error option" where
  "pair_iter NULL = ([], None)"
| "pair_iter (SPair a b) = (a # fst (pair_iter b), snd (pair_iter b))"
| "pair_iter v = ([], Some AttributeError)"

fun py_iter :: "val \<Rightarrow> (val list \<times> error option) result" where
  "py_iter (SPair a b) = Inr (pair_iter (SPair a b))"
| "py_iter NULL = Inr ([], None)"
| "py_iter (Sym x) = Inr (map (\<lambda>c. Sym [c]) x, None)"
| "py_iter v = Inl TypeError"

text \<open>The list comprehension \<open>[arg for arg in args]\<close>.\<close>

definition list_of_iter :: "val \<Rightarrow> val list result" where
  "list_of_iter args =
     bnd (py_iter args) (\<lambda>(xs, e). case e of None \<Rightarrow> Inr xs | Some err \<Rightarrow> Inl err)"

text \<open>
  Truth of a value in a Python condition (\<open>if test:\<close>): a number is true when it is not
  zero, a string when it is not empty; \<open>NULL\<close> and \<open>Pair\<close> define \<open>__len__\<close>, so \<open>NULL\<close>
  is false and the truth of a \<open>Pair\<close> calls \<open>Pair.__len__\<close>, which raises on an improper
  list; \<open>None\<close> is false; every other object is true.
\<close>

fun py_truth :: "val \<Rightarrow> bool result" where
  "py_truth (Num n) = Inr (n \<noteq> 0)"
| "py_truth (Boolean b) = Inr b"
| "py_truth (Sym x) = Inr (x \<noteq> [])"
| "py_truth NULL = Inr False"
| "py_truth (SPair a b) = bnd (pair_len (SPair a b)) (\<lambda>n. Inr (n \<noteq> 0))"
| "py_truth PyNone = Inr False"
| "py_truth v = Inr True"

text \<open>\<open>v == False\<close>: Python's \<open>0 == False\<close> is true.\<close>

fun eq_False :: "val \<Rightarrow> bool" where
  "eq_False (Boolean b) = (\<not> b)"
| "eq_False (Num n) = (n = 0)"
| "eq_False v = False"

text \<open>The Scheme list of a Python sequence (\<open>scheme_list\<close>).\<close>

fun scheme_list :: "val list \<Rightarrow> val" where
  "scheme_list [] = NULL"
| "scheme_list (x # xs) = SPair x (scheme_list xs)"

section \<open>Environments (class Frame)\<close>

text \<open>
  Frames are mutable objects shared by reference: a closure keeps the frame it was created
  in, and \<open>define\<close> assigns into a frame. The store is the list of all frames allocated so
  far; a frame reference is an index into it. \<open>inner\<close> is the dictionary of the frame, kept
  as an association list in insertion order.

  A reference beyond the store has no counterpart in the program; the model reads it as an
  empty frame without parent.
\<close>

record frame =
  inner :: "(val \<times> val) list"
  parent :: "nat option"

type_synonym store = "frame list"

definition frame_at :: "store \<Rightarrow> nat \<Rightarrow> frame" where
  "frame_at s f = (if f < length s then s ! f else \<lparr>inner = [], parent = None\<rparr>)"

text \<open>
  Dictionary keys: \<open>True\<close> and \<open>1\<close> (and \<open>False\<close> and \<open>0\<close>) are the same key. Keys that are
  Pairs are compared by identity in Python and structurally here; they are never equal to
  a symbol, and the evaluator looks up symbols only.
\<close>

fun dict_key :: "val \<Rightarrow> val" where
  "dict_key (Boolean b) = Num (if b then 1 else 0)"
| "dict_key v = v"

fun alist_set :: "(val \<times> val) list \<Rightarrow> val \<Rightarrow> val \<Rightarrow> (val \<times> val) list" where
  "alist_set [] k v = [(k, v)]"
| "alist_set (p # ps) k v = (if fst p = k then (fst p, v) # ps else p # alist_set ps k v)"

definition dict_setitem :: "(val \<times> val) list \<Rightarrow> val \<Rightarrow> val \<Rightarrow> (val \<times> val) list" where
  "dict_setitem d k v = alist_set d (dict_key k) v"

text \<open>\<open>frame.inner[k] = v\<close> on the frame \<open>f\<close> of the store.\<close>

definition inner_setitem :: "store \<Rightarrow> nat \<Rightarrow> val \<Rightarrow> val \<Rightarrow> store" where
  "inner_setitem s f k v =
     (if f < length s then s[f := (s ! f)\<lparr>inner := dict_setitem (inner (s ! f)) k v\<rparr>] else s)"

text \<open>
  \<open>Frame.find\<close>: the frame at or above \<open>f\<close> that defines the symbol. A frame is created
  after its parent, so the parent's index is the smaller one; the search stops with the
  error where that fails. The stack frames that the recursion of \<open>Frame.find\<close> takes in
  Python are not counted (see the depth argument of \<open>scheme_eval\<close>).
\<close>

function find :: "store \<Rightarrow> nat \<Rightarrow> string \<Rightarrow> nat result" where
  "find s f x =
     (if Sym x \<in> fst ` set (inner (frame_at s f)) then Inr f
      else case parent (frame_at s f) of
             Some p \<Rightarrow> (if p < f then find s p x
                        else Inl (SchemeError (Unknown_identifier x)))
           | None \<Rightarrow> Inl (SchemeError (Unknown_identifier x)))"
  by pat_completeness auto
termination
  by (relation "measure (\<lambda>(s, f, x). f)") auto

declare find.simps [simp del]

text \<open>\<open>Frame.__getitem__\<close>: \<open>self.find(sym).inner[sym]\<close>.\<close>

definition frame_getitem :: "store \<Rightarrow> nat \<Rightarrow> string \<Rightarrow> val result" where
  "frame_getitem s f x =
     bnd (find s f x) (\<lambda>g.
       case map_of (inner (frame_at s g)) (Sym x) of
         Some v \<Rightarrow> Inr v
       | None \<Rightarrow> Inl (SchemeError (Unknown_identifier x)))"

text \<open>\<open>Frame(parent)\<close> followed by the assignments that fill its dictionary.\<close>

definition new_frame :: "store \<Rightarrow> nat \<Rightarrow> (val \<times> val) list \<Rightarrow> nat \<times> store" where
  "new_frame s p d = (length s, s @ [\<lparr>inner = d, parent = Some p\<rparr>])"

text \<open>The loop \<open>for (key, val) in ...: frame.inner[key] = val\<close> on an empty dictionary.\<close>

definition bind_all :: "(val \<times> val) list \<Rightarrow> (val \<times> val) list" where
  "bind_all kvs = foldl (\<lambda>d (k, v). dict_setitem d k v) [] kvs"

text \<open>
  \<open>zip(formals, vals)\<close> consumed by the loop. \<open>zip\<close> first takes an iterator of each
  argument, then asks \<open>formals\<close> for an element before it asks \<open>vals\<close>, and stops at the
  first that ends; an iteration that ends in an error raises it there.
\<close>

definition zip_iter :: "val \<Rightarrow> val \<Rightarrow> (val \<times> val) list result" where
  "zip_iter formals vals =
     bnd (py_iter formals) (\<lambda>(fs, ferr).
     bnd (py_iter vals) (\<lambda>(vs, verr).
       case (if length fs \<le> length vs then ferr else verr) of
         Some e \<Rightarrow> Inl e
       | None \<Rightarrow> Inr (zip fs vs)))"

text \<open>
  The dictionary that \<open>Frame.make_call_frame\<close> builds. \<open>len(formals)\<close> raises a
  SchemeError exactly on an improper list; the handler then binds the first formal to the
  first value and the rest of the formals, as one key, to the rest of the values. Nothing
  in the \<open>try\<close> block other than \<open>len\<close> raises a SchemeError.
\<close>

definition call_frame_inner :: "val \<Rightarrow> val \<Rightarrow> (val \<times> val) list result" where
  "call_frame_inner formals vals =
     (case py_len formals of
        Inl (SchemeError m) \<Rightarrow>
          bnd (first vals) (\<lambda>v1.
          bnd (first formals) (\<lambda>k1.
          bnd (second vals) (\<lambda>v2.
          bnd (second formals) (\<lambda>k2.
            Inr (dict_setitem (dict_setitem [] k1 v1) k2 v2)))))
      | Inl e \<Rightarrow> Inl e
      | Inr n \<Rightarrow> bnd (zip_iter formals vals) (\<lambda>kvs. Inr (bind_all kvs)))"

definition make_call_frame :: "store \<Rightarrow> nat \<Rightarrow> val \<Rightarrow> val \<Rightarrow> (nat \<times> store) result" where
  "make_call_frame s self formals vals =
     bnd (call_frame_inner formals vals) (\<lambda>d. Inr (new_frame s self d))"

text \<open>
  \<open>do_let_form\<close> calls \<open>make_call_frame\<close> with two Python lists of the same length: \<open>len\<close>
  succeeds and \<open>zip\<close> pairs them.
\<close>

definition make_call_frame_py :: "store \<Rightarrow> nat \<Rightarrow> val list \<Rightarrow> val list \<Rightarrow> nat \<times> store" where
  "make_call_frame_py s self names vals = new_frame s self (bind_all (zip names vals))"

section \<open>Checking the structure of forms\<close>

definition check_form :: "val \<Rightarrow> nat \<Rightarrow> nat option \<Rightarrow> unit result" where
  "check_form expr mn mx =
     (if \<not> scheme_listp expr then Inl (Badly_formed_expression expr)
      else bnd (py_len expr) (\<lambda>n.
        if n < mn then Inl (SchemeError Too_few_operands)
        else case mx of
               Some m \<Rightarrow> (if m < n then Inl (SchemeError Too_many_operands) else Inr ())
             | None \<Rightarrow> Inr ()))"

text \<open>
  \<open>check_formals\<close>. The list \<open>args\<close> grows by \<open>args += formals.first\<close>, which extends it
  with the elements of the operand: the characters of a symbol, nothing for \<open>NULL\<close>, and a
  TypeError for an operand that is not iterable. So \<open>args\<close> is a list of one-character
  strings, and \<open>formals.first in args\<close> holds when the symbol is one character of it. The
  test \<open>scheme_numberp\<close> under \<open>scheme_symbolp\<close> never holds.
\<close>

fun check_formals_loop :: "string \<Rightarrow> val \<Rightarrow> unit result" where
  "check_formals_loop args (SPair a (SPair b c)) =
     (if scheme_pairp a then Inl (SchemeError Formal_pair)
      else case a of
             Sym x \<Rightarrow>
               (if length x = 1 \<and> x ! 0 \<in> set args then Inl (SchemeError Formal_same_name)
                else check_formals_loop (args @ x) (SPair b c))
           | NULL \<Rightarrow> check_formals_loop args (SPair b c)
           | _ \<Rightarrow> Inl TypeError)"
| "check_formals_loop args v = Inr ()"

definition check_formals :: "val \<Rightarrow> unit result" where
  "check_formals formals =
     (if scheme_pairp formals then check_formals_loop [] formals
      else if scheme_numberp formals then Inl (SchemeError Formal_number)
      else Inr ())"

section \<open>Special forms\<close>

text \<open>
  The special forms call \<open>scheme_eval\<close>. Each handler takes the evaluator to call as its
  first argument \<open>ev\<close>; \<open>scheme_eval\<close> passes itself, one level deeper in the call stack.
\<close>

type_synonym evaluator = "val \<Rightarrow> nat \<Rightarrow> store \<Rightarrow> (val \<times> store) result"
type_synonym applier = "val \<Rightarrow> val \<Rightarrow> nat \<Rightarrow> store \<Rightarrow> (val \<times> store) result"

definition do_lambda_form :: "val \<Rightarrow> nat \<Rightarrow> val result" where
  "do_lambda_form vals env =
     bnd (check_form vals 2 None) (\<lambda>_.
     bnd (py_getitem vals 0) (\<lambda>formals.
     bnd (check_formals formals) (\<lambda>_.
     bnd (first vals) (\<lambda>arguments.
     bnd (second vals) (\<lambda>body.
     bnd (py_len body) (\<lambda>n.
       if n \<noteq> 1 then Inr (LambdaProcedure arguments (SPair (Sym ''begin'') body) env)
       else bnd (first body) (\<lambda>b. Inr (LambdaProcedure arguments b env))))))))"

definition do_define_form :: "evaluator \<Rightarrow> val \<Rightarrow> nat \<Rightarrow> store \<Rightarrow> store result" where
  "do_define_form ev vals env s =
     bnd (check_form vals 2 None) (\<lambda>_.
     bnd (first vals) (\<lambda>target.
       if scheme_pairp target then
         bnd (first target) (\<lambda>func_name.
         bnd (second target) (\<lambda>func_args.
         bnd (second vals) (\<lambda>func_body.
         bnd (do_lambda_form (SPair func_args func_body) env) (\<lambda>func.
           Inr (inner_setitem s env func_name func)))))
       else
         bnd (second vals) (\<lambda>rest.
         bnd (first rest) (\<lambda>e.
         bnd (ev e env s) (\<lambda>(v, s1).
           Inr (inner_setitem s1 env target v))))))"

definition do_quote_form :: "val \<Rightarrow> val result" where
  "do_quote_form vals = bnd (check_form vals 1 (Some 1)) (\<lambda>_. py_getitem vals 0)"

text \<open>The loop \<open>for i in range(0, last): scheme_eval(exprs[i], env)\<close>, over the indices.\<close>

fun eval_each :: "evaluator \<Rightarrow> val \<Rightarrow> nat list \<Rightarrow> nat \<Rightarrow> store \<Rightarrow> store result" where
  "eval_each ev exprs [] env s = Inr s"
| "eval_each ev exprs (i # is) env s =
     bnd (py_getitem exprs i) (\<lambda>e.
     bnd (ev e env s) (\<lambda>(v, s1). eval_each ev exprs is env s1))"

text \<open>
  The binding loop of \<open>do_let_form\<close>, collecting the Python lists \<open>names\<close> and \<open>vals\<close>.
  \<open>bindings\<close> has passed \<open>scheme_listp\<close>, so its iteration ends without an error.
\<close>

fun let_bindings ::
  "evaluator \<Rightarrow> val list \<Rightarrow> nat \<Rightarrow> store \<Rightarrow> val list \<Rightarrow> val list \<Rightarrow>
     (val list \<times> val list \<times> store) result" where
  "let_bindings ev [] env s names vals = Inr (names, vals, s)"
| "let_bindings ev (item # items) env s names vals =
     bnd (first item) (\<lambda>name.
     bnd (second item) (\<lambda>r.
     bnd (first r) (\<lambda>e.
     bnd (ev e env s) (\<lambda>(v, s1).
       let_bindings ev items env s1 (names @ [name]) (vals @ [v])))))"

text \<open>
  In \<open>do_let_form\<close> and \<open>do_let_star_form\<close>, \<open>exprs\<close> has at least one element after
  \<open>check_form(vals, 2)\<close>, so \<open>last = len(exprs) - 1\<close> is not negative. The handler of
  \<open>UnboundLocalError\<close> in \<open>do_let_form\<close> is dead code: no local variable is read before
  it is assigned.
\<close>

definition do_let_form :: "evaluator \<Rightarrow> val \<Rightarrow> nat \<Rightarrow> store \<Rightarrow> (val \<times> nat \<times> store) result" where
  "do_let_form ev vals env s =
     bnd (check_form vals 2 None) (\<lambda>_.
     bnd (py_getitem vals 0) (\<lambda>bindings.
     bnd (second vals) (\<lambda>exprs.
       if \<not> scheme_listp bindings then Inl (SchemeError Bad_bindings)
       else
         bnd (let_bindings ev (fst (pair_iter bindings)) env s [] []) (\<lambda>(names, vs, s1).
         case make_call_frame_py s1 env names vs of (new_env, s2) \<Rightarrow>
           bnd (py_len exprs) (\<lambda>n.
           bnd (eval_each ev exprs [0 ..< n - 1] new_env s2) (\<lambda>s3.
           bnd (py_getitem exprs (n - 1)) (\<lambda>e. Inr (e, new_env, s3))))))))"

text \<open>The binding loop of \<open>do_let_star_form\<close>: every value is computed in \<open>new_env\<close>.\<close>

fun let_star_bindings :: "evaluator \<Rightarrow> val list \<Rightarrow> nat \<Rightarrow> store \<Rightarrow> store result" where
  "let_star_bindings ev [] new_env s = Inr s"
| "let_star_bindings ev (binding # bindings) new_env s =
     bnd (py_getitem binding 0) (\<lambda>name.
     bnd (py_getitem binding 1) (\<lambda>e.
     bnd (ev e new_env s) (\<lambda>(v, s1).
       let_star_bindings ev bindings new_env (inner_setitem s1 new_env name v))))"

definition do_let_star_form ::
  "evaluator \<Rightarrow> val \<Rightarrow> nat \<Rightarrow> store \<Rightarrow> (val \<times> nat \<times> store) result" where
  "do_let_star_form ev vals env s =
     bnd (check_form vals 2 None) (\<lambda>_.
     bnd (py_getitem vals 0) (\<lambda>bindings.
     bnd (second vals) (\<lambda>exprs.
       if \<not> scheme_listp bindings then Inl (SchemeError Bad_bindings)
       else
         bnd (make_call_frame s env NULL NULL) (\<lambda>(new_env, s1).
         bnd (let_star_bindings ev (fst (pair_iter bindings)) new_env s1) (\<lambda>s2.
         bnd (py_len exprs) (\<lambda>n.
         bnd (eval_each ev exprs [0 ..< n - 1] env s2) (\<lambda>s3.
         bnd (py_getitem exprs (n - 1)) (\<lambda>e. Inr (e, env, s3)))))))))"

subsection \<open>Logical special forms\<close>

text \<open>
  Each handler of \<open>LOGIC_FORMS\<close> returns a value to \<open>scheme_eval\<close>, which evaluates it
  once more (line 54).
\<close>

definition do_if_form :: "evaluator \<Rightarrow> val \<Rightarrow> nat \<Rightarrow> store \<Rightarrow> (val \<times> store) result" where
  "do_if_form ev vals env s =
     bnd (check_form vals 3 (Some 3)) (\<lambda>_.
     bnd (first vals) (\<lambda>condition.
     bnd (second vals) (\<lambda>res.
     bnd (first res) (\<lambda>if_true.
     bnd (second res) (\<lambda>r2.
     bnd (first r2) (\<lambda>if_false.
     bnd (ev condition env s) (\<lambda>(true_false, s1).
     bnd (py_truth true_false) (\<lambda>t.
       if t then Inr (if_true, s1) else Inr (if_false, s1)))))))))"

fun and_loop ::
  "evaluator \<Rightarrow> val list \<Rightarrow> error option \<Rightarrow> nat \<Rightarrow> store \<Rightarrow> (val \<times> store) result" where
  "and_loop ev [] err env s =
     (case err of Some e \<Rightarrow> Inl e | None \<Rightarrow> Inr (Boolean True, s))"
| "and_loop ev (condition # conditions) err env s =
     bnd (ev condition env s) (\<lambda>(v, s1).
       if eq_False v then Inr (Boolean False, s1) else and_loop ev conditions err env s1)"

definition do_and_form :: "evaluator \<Rightarrow> val \<Rightarrow> nat \<Rightarrow> store \<Rightarrow> (val \<times> store) result" where
  "do_and_form ev vals env s = bnd (py_iter vals) (\<lambda>(xs, err). and_loop ev xs err env s)"

fun or_loop ::
  "evaluator \<Rightarrow> val list \<Rightarrow> error option \<Rightarrow> nat \<Rightarrow> store \<Rightarrow> (val \<times> store) result" where
  "or_loop ev [] err env s =
     (case err of Some e \<Rightarrow> Inl e | None \<Rightarrow> Inr (Boolean False, s))"
| "or_loop ev (condition # conditions) err env s =
     bnd (ev condition env s) (\<lambda>(v, s1).
       if \<not> eq_False v then Inr (Boolean True, s1) else or_loop ev conditions err env s1)"

definition do_or_form :: "evaluator \<Rightarrow> val \<Rightarrow> nat \<Rightarrow> store \<Rightarrow> (val \<times> store) result" where
  "do_or_form ev vals env s = bnd (py_iter vals) (\<lambda>(xs, err). or_loop ev xs err env s)"

text \<open>
  The loop of \<open>do_cond_form\<close> over \<open>enumerate(vals)\<close>; \<open>i\<close> is the index of the clause.
  \<open>len(vals)\<close> has succeeded before the loop, so the iteration ends without an error.
  A selected clause with one body expression is evaluated here, by \<open>ev\<close>.
\<close>

fun cond_loop ::
  "evaluator \<Rightarrow> nat \<Rightarrow> nat \<Rightarrow> val list \<Rightarrow> nat \<Rightarrow> store \<Rightarrow> (val \<times> store) result" where
  "cond_loop ev num_clauses i [] env s = Inr (PyNone, s)"
| "cond_loop ev num_clauses i (clause # clauses) env s =
     bnd (check_form clause 1 None) (\<lambda>_.
     bnd (first clause) (\<lambda>head.
     bnd (second clause) (\<lambda>body.
     bnd (if head = Sym ''else'' then
            (if int i < int num_clauses - 1 then Inl (SchemeError Else_must_be_last)
             else if body = NULL then Inl (SchemeError Badly_formed_else)
             else Inr (Boolean True, s))
          else ev head env s) (\<lambda>(test, s1).
     bnd (py_truth test) (\<lambda>t.
       if t then
         bnd (py_len body) (\<lambda>n.
           if 1 < n then ev (SPair (Sym ''begin'') body) env s1
           else if n = 1 then bnd (first body) (\<lambda>e. ev e env s1)
           else Inr (Boolean True, s1))
       else cond_loop ev num_clauses (Suc i) clauses env s1)))))"

definition do_cond_form :: "evaluator \<Rightarrow> val \<Rightarrow> nat \<Rightarrow> store \<Rightarrow> (val \<times> store) result" where
  "do_cond_form ev vals env s =
     bnd (py_len vals) (\<lambda>num_clauses.
       cond_loop ev num_clauses 0 (fst (pair_iter vals)) env s)"

text \<open>
  The loop of \<open>do_begin_form\<close>. The counter \<open>i\<close> is incremented before the test
  \<open>i == len(vals) - 1\<close>; when the loop ends without a \<open>return\<close> the function returns
  \<open>None\<close>. \<open>vals\<close> has passed \<open>check_form\<close>, so its iteration ends without an error.
\<close>

fun begin_loop ::
  "evaluator \<Rightarrow> val \<Rightarrow> nat \<Rightarrow> val list \<Rightarrow> nat \<Rightarrow> store \<Rightarrow> (val \<times> store) result" where
  "begin_loop ev vals i [] env s = Inr (PyNone, s)"
| "begin_loop ev vals i (statement # statements) env s =
     bnd (py_len vals) (\<lambda>n.
       if int (Suc i) = int n - 1 then bnd (py_getitem vals (Suc i)) (\<lambda>e. Inr (e, s))
       else bnd (ev statement env s) (\<lambda>(v, s1). begin_loop ev vals (Suc i) statements env s1))"

definition do_begin_form :: "evaluator \<Rightarrow> val \<Rightarrow> nat \<Rightarrow> store \<Rightarrow> (val \<times> store) result" where
  "do_begin_form ev vals env s =
     bnd (check_form vals 1 None) (\<lambda>_.
       begin_loop ev vals 0 (fst (pair_iter vals)) env s)"

definition do_case_form :: "evaluator \<Rightarrow> val \<Rightarrow> nat \<Rightarrow> store \<Rightarrow> (val \<times> store) result" where
  "do_case_form ev vals env s = Inr (Boolean False, s)"

text \<open>The dictionary \<open>LOGIC_FORMS\<close>: its keys, and the handler of a key.\<close>

definition LOGIC_FORMS :: "string list" where
  "LOGIC_FORMS = [''and'', ''or'', ''if'', ''cond'', ''begin'', ''case'']"

definition in_LOGIC_FORMS :: "val \<Rightarrow> bool" where
  "in_LOGIC_FORMS v = (case v of Sym x \<Rightarrow> x \<in> set LOGIC_FORMS | _ \<Rightarrow> False)"

definition logic_form :: "val \<Rightarrow> evaluator \<Rightarrow> val \<Rightarrow> nat \<Rightarrow> store \<Rightarrow> (val \<times> store) result" where
  "logic_form v =
     (if v = Sym ''and'' then do_and_form
      else if v = Sym ''or'' then do_or_form
      else if v = Sym ''if'' then do_if_form
      else if v = Sym ''cond'' then do_cond_form
      else if v = Sym ''begin'' then do_begin_form
      else do_case_form)"

section \<open>Primitive procedures\<close>

text \<open>\<open>_check_nums\<close>, with the index of the operand for the message.\<close>

fun check_nums :: "nat \<Rightarrow> val list \<Rightarrow> unit result" where
  "check_nums i [] = Inr ()"
| "check_nums i (v # vs) =
     (if \<not> scheme_numberp v then Inl (SchemeError (Not_a_number i v))
      else check_nums (Suc i) vs)"

text \<open>The integer that Python computes with: \<open>True\<close> is 1 and \<open>False\<close> is 0.\<close>

fun num_of :: "val \<Rightarrow> int" where
  "num_of (Num n) = n"
| "num_of (Boolean b) = (if b then 1 else 0)"
| "num_of v = 0"

text \<open>\<open>_arith\<close>; the result of integer arithmetic is its own rounding.\<close>

definition arith :: "(int \<Rightarrow> int \<Rightarrow> int) \<Rightarrow> int \<Rightarrow> val list \<Rightarrow> val result" where
  "arith fn init vals =
     bnd (check_nums 0 vals) (\<lambda>_. Inr (Num (foldl fn init (map num_of vals))))"

definition scheme_add :: "val list \<Rightarrow> val result" where
  "scheme_add vals = arith (+) 0 vals"

text \<open>
  \<open>scheme_sub(val0, *vals)\<close>: a call without arguments is a TypeError; with one argument
  the result is \<open>-val0\<close>; otherwise \<open>_arith\<close> checks \<open>vals\<close> only, and the first subtraction
  raises a TypeError when \<open>val0\<close> is not a number.
\<close>

fun scheme_sub :: "val list \<Rightarrow> val result" where
  "scheme_sub [] = Inl TypeError"
| "scheme_sub [val0] = (if scheme_numberp val0 then Inr (Num (- num_of val0)) else Inl TypeError)"
| "scheme_sub (val0 # vals) =
     bnd (check_nums 0 vals) (\<lambda>_.
       if scheme_numberp val0 then Inr (Num (foldl (-) (num_of val0) (map num_of vals)))
       else Inl TypeError)"

definition scheme_mul :: "val list \<Rightarrow> val result" where
  "scheme_mul vals = arith (*) 1 vals"

text \<open>\<open>_numcomp\<close> behind a function of exactly two parameters.\<close>

fun numcomp :: "(int \<Rightarrow> int \<Rightarrow> bool) \<Rightarrow> val list \<Rightarrow> val result" where
  "numcomp op [x, y] =
     bnd (check_nums 0 [x, y]) (\<lambda>_. Inr (Boolean (op (num_of x) (num_of y))))"
| "numcomp op vals = Inl TypeError"

text \<open>
  \<open>apply_primitive\<close>: \<open>procedure.fn(*arg_list)\<close>, after the environment is appended for
  \<open>eval\<close> and \<open>apply\<close>; a call with the wrong number of arguments is a TypeError, and every
  TypeError that leaves the call becomes a SchemeError.
\<close>

fun use_env :: "prim \<Rightarrow> bool" where
  "use_env PEval = True"
| "use_env PApply = True"
| "use_env p = False"

definition call_fn ::
  "evaluator \<Rightarrow> applier \<Rightarrow> prim \<Rightarrow> val list \<Rightarrow> nat \<Rightarrow> store \<Rightarrow> (val \<times> store) result" where
  "call_fn ev ap p arg_list env s =
     (case p of
        PEval \<Rightarrow> (case arg_list of [expr] \<Rightarrow> ev expr env s | _ \<Rightarrow> Inl TypeError)
      | PApply \<Rightarrow> (case arg_list of [procedure, args] \<Rightarrow> ap procedure args env s
                   | _ \<Rightarrow> Inl TypeError)
      | PAdd \<Rightarrow> bnd (scheme_add arg_list) (\<lambda>v. Inr (v, s))
      | PSub \<Rightarrow> bnd (scheme_sub arg_list) (\<lambda>v. Inr (v, s))
      | PMul \<Rightarrow> bnd (scheme_mul arg_list) (\<lambda>v. Inr (v, s))
      | PNumEq \<Rightarrow> bnd (numcomp (=) arg_list) (\<lambda>v. Inr (v, s))
      | PLt \<Rightarrow> bnd (numcomp (<) arg_list) (\<lambda>v. Inr (v, s)))"

definition apply_primitive ::
  "evaluator \<Rightarrow> applier \<Rightarrow> prim \<Rightarrow> val list \<Rightarrow> nat \<Rightarrow> store \<Rightarrow> (val \<times> store) result" where
  "apply_primitive ev ap p arg_list env s =
     (case call_fn ev ap p arg_list env s of
        Inl TypeError \<Rightarrow> Inl (SchemeError Wrong_type_of_argument)
      | r \<Rightarrow> r)"

section \<open>Eval and Apply\<close>

text \<open>\<open>Pair.map\<close> and \<open>NULL.map\<close> with the function \<open>lambda operand: scheme_eval(operand, env)\<close>.\<close>

fun map_eval :: "evaluator \<Rightarrow> val \<Rightarrow> nat \<Rightarrow> store \<Rightarrow> (val \<times> store) result" where
  "map_eval ev NULL env s = Inr (NULL, s)"
| "map_eval ev (SPair a b) env s =
     bnd (ev a env s) (\<lambda>(mapped, s1).
       if b = NULL \<or> scheme_pairp b then
         bnd (map_eval ev b env s1) (\<lambda>(r, s2). Inr (SPair mapped r, s2))
       else Inl (SchemeError Ill_formed_list))"
| "map_eval ev v env s = Inl AttributeError"

text \<open>
  The body of \<open>scheme_apply\<close>. The call frame of a LambdaProcedure is made by
  \<open>env.make_call_frame\<close>, where \<open>env\<close> is the third parameter of \<open>scheme_apply\<close>.
\<close>

definition scheme_apply_body ::
  "evaluator \<Rightarrow> applier \<Rightarrow> val \<Rightarrow> val \<Rightarrow> nat \<Rightarrow> store \<Rightarrow> (val \<times> store) result" where
  "scheme_apply_body ev ap procedure args env s =
     (case procedure of
        PrimitiveProcedure p \<Rightarrow>
          bnd (list_of_iter args) (\<lambda>arg_list. apply_primitive ev ap p arg_list env s)
      | LambdaProcedure formals body cenv \<Rightarrow>
          bnd (list_of_iter args) (\<lambda>arg_list.
          bnd (make_call_frame s env formals args) (\<lambda>(new_frame, s1).
            ev body new_frame s1))
      | _ \<Rightarrow> Inl (SchemeError (Cannot_call procedure)))"

text \<open>The body of \<open>scheme_eval\<close>.\<close>

definition scheme_eval_body ::
  "evaluator \<Rightarrow> applier \<Rightarrow> val \<Rightarrow> nat \<Rightarrow> store \<Rightarrow> (val \<times> store) result" where
  "scheme_eval_body ev ap expr env s =
     (if expr = PyNone then Inl (SchemeError Undefined_expression)
      else case expr of
        Sym x \<Rightarrow> bnd (frame_getitem s env x) (\<lambda>v. Inr (v, s))
      | _ \<Rightarrow>
       (if scheme_atomp expr then Inr (expr, s)
        else if \<not> scheme_listp expr then Inl (SchemeError (Malformed_list expr))
        else
          bnd (first expr) (\<lambda>fst_expr.
          bnd (second expr) (\<lambda>rest.
            if in_LOGIC_FORMS fst_expr then
              bnd (logic_form fst_expr ev rest env s) (\<lambda>(v, s1). ev v env s1)
            else if fst_expr = Sym ''lambda'' then
              bnd (do_lambda_form rest env) (\<lambda>v. Inr (v, s))
            else if fst_expr = Sym ''define'' then
              bnd (do_define_form ev rest env s) (\<lambda>s1. Inr (PyNone, s1))
            else if fst_expr = Sym ''quote'' then
              bnd (do_quote_form rest) (\<lambda>v. Inr (v, s))
            else if fst_expr = Sym ''let'' then
              bnd (do_let_form ev rest env s) (\<lambda>(e, env1, s1). ev e env1 s1)
            else if fst_expr = Sym ''let*'' then
              bnd (do_let_star_form ev rest env s) (\<lambda>(e, env1, s1). ev e env1 s1)
            else
              bnd (ev fst_expr env s) (\<lambda>(procedure, s1).
              bnd (map_eval ev rest env s1) (\<lambda>(args, s2).
                ap procedure args env s2))))))"

text \<open>
  \<open>scheme_eval\<close> and \<open>scheme_apply\<close> call each other and themselves; Python runs every
  call in a new stack frame and fails with a RecursionError when the stack exceeds its
  limit. The first argument is the number of nested calls of \<open>scheme_eval\<close> and
  \<open>scheme_apply\<close> that the stack still has room for: each of the two functions runs its
  body with the calls it makes one level deeper, and a call without room left fails.

  Only the calls of these two functions are counted. The handlers of the special forms,
  \<open>Pair.map\<close>, \<open>Frame.__getitem__\<close> and the recursion of \<open>Frame.find\<close> along the parent chain
  take stack frames in Python as well and are not counted here. So the count is a lower
  bound of the depth of the Python stack: where an evaluation fails here for lack of room,
  the program fails with a RecursionError at the same limit (no handler of the program
  catches it); where an evaluation succeeds here, the program may still need a larger
  limit than the room given.
\<close>

fun scheme_eval :: "nat \<Rightarrow> evaluator"
  and scheme_apply :: "nat \<Rightarrow> applier" where
  "scheme_eval 0 = (\<lambda>expr env s. Inl RecursionError)"
| "scheme_eval (Suc d) = scheme_eval_body (scheme_eval d) (scheme_apply d)"
| "scheme_apply 0 = (\<lambda>procedure args env s. Inl RecursionError)"
| "scheme_apply (Suc d) = scheme_apply_body (scheme_eval d) (scheme_apply d)"

text \<open>
  \<open>create_global_frame\<close>: the frame without parent that holds the primitive procedures,
  in the order of their definition (\<open>load\<close> and the primitives that are not modelled are
  left out). It is the only frame of the initial store, at index 0.
\<close>

definition create_global_frame :: "store" where
  "create_global_frame =
     [\<lparr>inner =
         [(Sym ''eval'', PrimitiveProcedure PEval),
          (Sym ''apply'', PrimitiveProcedure PApply),
          (Sym ''+'', PrimitiveProcedure PAdd),
          (Sym ''-'', PrimitiveProcedure PSub),
          (Sym ''*'', PrimitiveProcedure PMul),
          (Sym ''='', PrimitiveProcedure PNumEq),
          (Sym ''<'', PrimitiveProcedure PLt)],
       parent = None\<rparr>]"

section \<open>The tokenizer (scheme\_tokens.py)\<close>

text \<open>
  A line is a string of 8-bit characters. A position \<open>k\<close> in the line is represented by
  the rest of the line from \<open>k\<close> on.
\<close>

definition SYMBOL_STARTS :: "char set" where
  "SYMBOL_STARTS = set ''!$%&*/:<=>?@^_~'' \<union> set ''abcdefghijklmnopqrstuvwxyz''"

definition SYMBOL_INNERS :: "char set" where
  "SYMBOL_INNERS = SYMBOL_STARTS \<union> set ''0123456789'' \<union> set ''+-.''"

definition NUMERAL_STARTS :: "char set" where
  "NUMERAL_STARTS = set ''0123456789'' \<union> set ''+-.''"

definition WHITESPACE :: "char set" where
  "WHITESPACE = {CHR '' '', CHR 0x09, CHR 0x0A, CHR 0x0D}"

definition SINGLE_CHAR_TOKENS :: "char set" where
  "SINGLE_CHAR_TOKENS = {CHR ''('', CHR '')'', CHR 0x27}"

definition TOKEN_END :: "char set" where
  "TOKEN_END = WHITESPACE \<union> SINGLE_CHAR_TOKENS"

definition DELIMITERS :: "string set" where
  "DELIMITERS = {''('', '')'', [CHR 0x27], ''.''}"

definition valid_symbol :: "string \<Rightarrow> bool" where
  "valid_symbol x =
     (case x of
        [] \<Rightarrow> False
      | c # cs \<Rightarrow> (if c \<notin> SYMBOL_STARTS then False else list_all (\<lambda>c. c \<in> SYMBOL_INNERS) cs))"

text \<open>\<open>_next_candidate_token\<close>: the candidate token, if any, and the rest of the line.\<close>

fun next_candidate_token :: "string \<Rightarrow> string option \<times> string" where
  "next_candidate_token [] = (None, [])"
| "next_candidate_token (c # cs) =
     (if c = CHR '';'' then (None, [])
      else if c \<in> WHITESPACE then next_candidate_token cs
      else if c \<in> SINGLE_CHAR_TOKENS then (Some [c], cs)
      else if c = CHR ''#'' then (Some (take 2 (c # cs)), drop 2 (c # cs))
      else (Some (takeWhile (\<lambda>x. x \<notin> TOKEN_END) (c # cs)),
            dropWhile (\<lambda>x. x \<notin> TOKEN_END) (c # cs)))"

text \<open>
  \<open>text.lower()\<close> is compared with \<open>true\<close> and \<open>false\<close>; among 8-bit characters only the
  letters A to Z are mapped to the letters of these words.
\<close>

definition lower_char :: "char \<Rightarrow> char" where
  "lower_char c =
     (if 65 \<le> (of_char c :: nat) \<and> (of_char c :: nat) \<le> 90
      then char_of ((of_char c :: nat) + 32) else c)"

definition lower :: "string \<Rightarrow> string" where
  "lower x = map lower_char x"

text \<open>
  \<open>int(text)\<close> on a numeral of decimal digits with an optional sign. The other spellings
  that Python's \<open>int\<close> accepts, and the numerals that \<open>float\<close> accepts, are not modelled:
  for them the tokenizer of the model stops with \<open>Numeral_not_modelled\<close>.
\<close>

definition digit_value :: "char \<Rightarrow> int" where
  "digit_value c = int (of_char c) - 48"

definition is_digit :: "char \<Rightarrow> bool" where
  "is_digit c = (48 \<le> (of_char c :: nat) \<and> (of_char c :: nat) \<le> 57)"

definition digits_value :: "string \<Rightarrow> int" where
  "digits_value ds = foldl (\<lambda>n c. 10 * n + digit_value c) 0 ds"

definition parse_int :: "string \<Rightarrow> int option" where
  "parse_int x =
     (case x of
        [] \<Rightarrow> None
      | c # cs \<Rightarrow>
          (if c = CHR ''-'' \<and> cs \<noteq> [] \<and> list_all is_digit cs then Some (- digits_value cs)
           else if c = CHR ''+'' \<and> cs \<noteq> [] \<and> list_all is_digit cs then Some (digits_value cs)
           else if list_all is_digit (c # cs) then Some (digits_value (c # cs))
           else None))"

datatype token_result = Tokens "val list" | Numeral_not_modelled string

text \<open>The tokens that one candidate token adds to \<open>result\<close>; an invalid token adds none.\<close>

definition token_of :: "string \<Rightarrow> token_result" where
  "token_of x =
     (if x \<in> DELIMITERS then Tokens [Sym x]
      else if x = ''+'' \<or> x = ''-'' then Tokens [Sym x]
      else if x = ''#t'' \<or> lower x = ''true'' then Tokens [Boolean True]
      else if x = ''#f'' \<or> lower x = ''false'' then Tokens [Boolean False]
      else if x = ''nil'' then Tokens [NULL]
      else if hd x \<in> NUMERAL_STARTS then
        (case parse_int x of Some n \<Rightarrow> Tokens [Num n] | None \<Rightarrow> Numeral_not_modelled x)
      else if hd x \<in> SYMBOL_STARTS \<and> valid_symbol x then Tokens [Sym x]
      else Tokens [])"

lemma next_candidate_token_shorter:
  "next_candidate_token line = (Some x, rest) \<Longrightarrow> length rest < length line"
proof (induction line)
  case Nil
  then show ?case by simp
next
  case (Cons c cs)
  have "length (dropWhile (\<lambda>x. x \<notin> TOKEN_END) cs) \<le> length cs"
    by (rule length_dropWhile_le)
  with Cons show ?case
    by (auto split: if_splits simp: less_Suc_eq_le TOKEN_END_def)
qed

function tokenize_from :: "string \<Rightarrow> token_result" where
  "tokenize_from line =
     (case next_candidate_token line of
        (None, rest) \<Rightarrow> Tokens []
      | (Some x, rest) \<Rightarrow>
          (case token_of x of
             Numeral_not_modelled y \<Rightarrow> Numeral_not_modelled y
           | Tokens ts \<Rightarrow>
               (case tokenize_from rest of
                  Numeral_not_modelled y \<Rightarrow> Numeral_not_modelled y
                | Tokens us \<Rightarrow> Tokens (ts @ us))))"
  by pat_completeness auto
termination
  by (relation "measure length") (auto dest: next_candidate_token_shorter [OF sym])

declare tokenize_from.simps [simp del]

definition tokenize_line :: "string \<Rightarrow> token_result" where
  "tokenize_line line = tokenize_from line"

section \<open>The reader\<close>

text \<open>
  Modelled from the spec: the class \<open>Buffer\<close> of the module \<open>buffer\<close> is not among the
  sources. The spec describes the token source as a pull source with \<open>current()\<close>, which
  returns the next token or \<open>None\<close> at the end of the input, and \<open>pop()\<close>, which consumes
  the token. The buffer is the list of the tokens not yet consumed.
\<close>

type_synonym buffer = "val list"

definition current :: "buffer \<Rightarrow> val option" where
  "current b = (case b of [] \<Rightarrow> None | x # xs \<Rightarrow> Some x)"

definition pop :: "buffer \<Rightarrow> buffer" where
  "pop b = tl b"

text \<open>
  \<open>scheme_read\<close> and its local function \<open>read_tail\<close> call each other; as for the
  evaluator, the first argument is the number of nested calls the stack has room for.
  Each function returns the value read and the buffer after it.
\<close>

fun scheme_read :: "nat \<Rightarrow> buffer \<Rightarrow> (val \<times> buffer) result"
  and read_tail :: "nat \<Rightarrow> buffer \<Rightarrow> (val \<times> buffer) result" where
  "scheme_read 0 b = Inl RecursionError"
| "scheme_read (Suc d) b =
     (case current b of
        None \<Rightarrow> Inr (EOF, b)
      | Some v \<Rightarrow>
          (if scheme_atomp v \<and> v \<notin> Sym ` DELIMITERS then Inr (v, pop b)
           else if v = Sym [CHR 0x27] then
             bnd (scheme_read d (pop b)) (\<lambda>(e, b1).
               Inr (SPair (Sym ''quote'') (SPair e NULL), b1))
           else if v = Sym ''('' then read_tail d (pop b)
           else Inl (SchemeError (Unexpected_token v))))"
| "read_tail 0 b = Inl RecursionError"
| "read_tail (Suc d) b =
     (case current b of
        None \<Rightarrow> Inl (SchemeError Unexpected_eof)
      | Some v \<Rightarrow>
          (if v = Sym '')'' then Inr (NULL, pop b)
           else if v = Sym ''.'' then
             bnd (read_tail d (pop b)) (\<lambda>(a, b1).
             bnd (py_len a) (\<lambda>n.
               if n \<noteq> 1 then Inl (SchemeError Too_many_elements_in_pair)
               else bnd (first a) (\<lambda>x. Inr (x, b1))))
           else
             bnd (scheme_read d b) (\<lambda>(x, b1).
             bnd (read_tail d b1) (\<lambda>(y, b2). Inr (SPair x y, b2)))))"

text \<open>\<open>read_line\<close>: the first expression of the tokens of one line.\<close>

definition read_line :: "nat \<Rightarrow> string \<Rightarrow> val result option" where
  "read_line d line =
     (case tokenize_line line of
        Numeral_not_modelled y \<Rightarrow> None
      | Tokens ts \<Rightarrow> Some (map_sum id fst (scheme_read d ts)))"

section \<open>Expressions and stores of the examples\<close>

text \<open>\<open>(define (f x) (lambda () x))\<close>, \<open>(define x 5)\<close> and \<open>((f 1))\<close>.\<close>

definition define_f :: val where
  "define_f =
     scheme_list [Sym ''define'', scheme_list [Sym ''f'', Sym ''x''],
       scheme_list [Sym ''lambda'', NULL, Sym ''x'']]"

definition define_x_5 :: val where
  "define_x_5 = scheme_list [Sym ''define'', Sym ''x'', Num 5]"

definition call_f_1 :: val where
  "call_f_1 = scheme_list [scheme_list [Sym ''f'', Num 1]]"

text \<open>
  The counting loop \<open>(define (loop n) (if (= n 0) 0 (loop (- n 1))))\<close>, whose recursive
  call is in tail position, the call \<open>(loop n)\<close>, and the store that the definition
  leaves behind in the global frame.
\<close>

definition loop_body :: val where
  "loop_body =
     scheme_list [Sym ''if'', scheme_list [Sym ''='', Sym ''n'', Num 0], Num 0,
       scheme_list [Sym ''loop'', scheme_list [Sym ''-'', Sym ''n'', Num 1]]]"

definition define_loop :: val where
  "define_loop = scheme_list [Sym ''define'', scheme_list [Sym ''loop'', Sym ''n''], loop_body]"

definition loop_call :: "nat \<Rightarrow> val" where
  "loop_call n = scheme_list [Sym ''loop'', Num (int n)]"

definition loop_store :: store where
  "loop_store =
     inner_setitem create_global_frame 0 (Sym ''loop'')
       (LambdaProcedure (scheme_list [Sym ''n'']) loop_body 0)"

text \<open>
  A frame from which the counting loop runs: \<open>loop\<close>, \<open>=\<close> and \<open>-\<close> resolve to the
  closure and the two primitives, and \<open>n\<close> to the number \<open>n\<close>.
\<close>

definition loop_env :: "store \<Rightarrow> nat \<Rightarrow> int \<Rightarrow> bool" where
  "loop_env s env n =
     (env < length s
      \<and> (\<exists>c. frame_getitem s env ''loop''
               = Inr (LambdaProcedure (scheme_list [Sym ''n'']) loop_body c))
      \<and> frame_getitem s env ''='' = Inr (PrimitiveProcedure PNumEq)
      \<and> frame_getitem s env ''-'' = Inr (PrimitiveProcedure PSub)
      \<and> frame_getitem s env ''n'' = Inr (Num n))"

text \<open>The formals \<open>(a b . c)\<close> and \<open>(a b)\<close>.\<close>

definition formals_a_b_dot_c :: val where
  "formals_a_b_dot_c = SPair (Sym ''a'') (SPair (Sym ''b'') (Sym ''c''))"

definition formals_a_b :: val where
  "formals_a_b = scheme_list [Sym ''a'', Sym ''b'']"

text \<open>\<open>(cond (#t (quote a)))\<close> and \<open>(cond (#f 1) (#t) (else 2))\<close>.\<close>

definition cond_quote_a :: val where
  "cond_quote_a =
     scheme_list [Sym ''cond'',
       scheme_list [Boolean True, scheme_list [Sym ''quote'', Sym ''a'']]]"

definition cond_bodiless :: val where
  "cond_bodiless =
     scheme_list [Sym ''cond'', scheme_list [Boolean False, Num 1], scheme_list [Boolean True],
       scheme_list [Sym ''else'', Num 2]]"

text \<open>
  The clauses of a \<open>cond\<close> that the loop passes over: each is a list whose head is not
  \<open>else\<close> and whose test evaluates, without an error, to a value that is false in a
  Python condition. The result is the store after their tests.
\<close>

fun passed_over :: "evaluator \<Rightarrow> val list \<Rightarrow> nat \<Rightarrow> store \<Rightarrow> store option" where
  "passed_over ev [] env s = Some s"
| "passed_over ev (clause # clauses) env s =
     (case clause of
        SPair head body \<Rightarrow>
          (if head = Sym ''else'' then None
           else if scheme_listp body then
             (case ev head env s of
                Inl e \<Rightarrow> None
              | Inr (v, s1) \<Rightarrow>
                  (if py_truth v = Inr False then passed_over ev clauses env s1 else None))
           else None)
      | _ \<Rightarrow> None)"

text \<open>
  \<open>(let* ((x 1) (y (+ x 1))) 0)\<close>: its two bindings, and the store in which the value of
  the second is computed.
\<close>

definition binding_x_1 :: val where
  "binding_x_1 = scheme_list [Sym ''x'', Num 1]"

definition binding_y :: val where
  "binding_y = scheme_list [Sym ''y'', scheme_list [Sym ''+'', Sym ''x'', Num 1]]"

definition let_star_store :: store where
  "let_star_store = create_global_frame @ [\<lparr>inner = [(Sym ''x'', Num 1)], parent = Some 0\<rparr>]"

text \<open>
  The keys of a frame, and the order on stores in which frames are only added and keys
  are only added to a frame.
\<close>

definition keys_at :: "store \<Rightarrow> nat \<Rightarrow> val set" where
  "keys_at s f = fst ` set (inner (frame_at s f))"

definition store_le :: "store \<Rightarrow> store \<Rightarrow> bool" where
  "store_le s t =
     (length s \<le> length t \<and> (\<forall>f. f < length s \<longrightarrow> keys_at s f \<subseteq> keys_at t f))"

definition ev_mono :: "evaluator \<Rightarrow> bool" where
  "ev_mono ev = (\<forall>e env s v t. ev e env s = Inr (v, t) \<longrightarrow> store_le s t)"

definition ap_mono :: "applier \<Rightarrow> bool" where
  "ap_mono ap = (\<forall>p a env s v t. ap p a env s = Inr (v, t) \<longrightarrow> store_le s t)"

section \<open>Basic facts\<close>

lemmas eval_simps =
  scheme_eval_body_def scheme_apply_body_def scheme_atomp_def in_LOGIC_FORMS_def LOGIC_FORMS_def
  logic_form_def do_lambda_form_def do_define_form_def do_quote_form_def do_if_form_def
  do_cond_form_def do_begin_form_def check_form_def check_formals_def make_call_frame_def
  call_frame_inner_def zip_iter_def bind_all_def new_frame_def list_of_iter_def
  apply_primitive_def call_fn_def dict_setitem_def

lemmas store_simps =
  create_global_frame_def frame_getitem_def frame_at_def inner_setitem_def find.simps

lemma bnd_InrE:
  assumes "bnd m f = Inr y"
  obtains x where "m = Inr x" and "f x = Inr y"
  using assms by (cases m) simp_all

lemma pair_iter_scheme_list: "pair_iter (scheme_list xs) = (xs, None)"
  by (induction xs) simp_all

lemma scheme_listp_scheme_list: "scheme_listp (scheme_list xs)"
  by (induction xs) simp_all

lemma pair_len_scheme_list: "pair_len (SPair x (scheme_list xs)) = Inr (Suc (length xs))"
  by (induction xs arbitrary: x) simp_all

lemma py_len_scheme_list: "py_len (scheme_list xs) = Inr (length xs)"
  by (cases xs) (simp_all add: pair_len_scheme_list del: pair_len.simps)

lemma py_iter_scheme_list: "py_iter (scheme_list xs) = Inr (xs, None)"
  using pair_iter_scheme_list [of xs] by (cases xs) simp_all

lemma scheme_eval_Inr_depth: "scheme_eval d e env s = Inr r \<Longrightarrow> \<exists>k. d = Suc k"
  by (cases d) simp_all

lemma scheme_eval_Boolean: "scheme_eval (Suc k) (Boolean b) env s = Inr (Boolean b, s)"
  by (simp add: scheme_eval_body_def scheme_atomp_def)

section \<open>The frame of a closure call\<close>

text \<open>
  The source lines of the examples read as the expressions defined above (the reader has
  room for nine nested calls here).
\<close>

lemma read_define_f: "read_line 9 ''(define (f x) (lambda () x))'' = Some (Inr define_f)"
  by code_simp

lemma read_call_f_1: "read_line 9 ''((f 1))'' = Some (Inr call_f_1)"
  by code_simp

text \<open>
  \<open>scheme_apply\<close> never reads the environment stored in a LambdaProcedure: two closures
  that differ only in it are applied alike.
\<close>

lemma scheme_apply_ignores_closure_env:
  "scheme_apply d (LambdaProcedure formals body c1) args env s
     = scheme_apply d (LambdaProcedure formals body c2) args env s"
  by (cases d) (simp_all add: scheme_apply_body_def)

text \<open>
  Claim C1 says that the call frame of a closure is a child of the environment the closure
  captured, so that after \<open>(define (f x) (lambda () x))\<close> the expression \<open>((f 1))\<close>
  evaluates to 1 whatever the caller binds. In the code the call frame is a child of the
  calling environment. Evaluated in the global frame with room for four or more nested
  calls, \<open>((f 1))\<close> fails with the error "unknown identifier: x"; and after \<open>(define x 5)\<close>
  in the global frame it evaluates to 5, the caller's binding of \<open>x\<close>.
\<close>

theorem closure_free_variable_resolves_in_caller:
  "bnd (scheme_eval (Suc i) define_f 0 create_global_frame) (\<lambda>(v, s).
     map_sum id fst (scheme_eval (Suc (Suc (Suc (Suc k)))) call_f_1 0 s))
   = Inl (SchemeError (Unknown_identifier ''x''))
 \<and> bnd (scheme_eval (Suc i) define_f 0 create_global_frame) (\<lambda>(v, s).
     bnd (scheme_eval (Suc (Suc j)) define_x_5 0 s) (\<lambda>(v, s).
       map_sum id fst (scheme_eval (Suc (Suc (Suc (Suc k)))) call_f_1 0 s)))
   = Inr (Num 5)"
  by (simp add: define_f_def define_x_5_def call_f_1_def eval_simps store_simps)

section \<open>Call frames\<close>

text \<open>
  Claim C3 says that \<open>make_call_frame\<close> with the formals \<open>(a b . c)\<close> and the arguments
  \<open>(1 2 3 4)\<close> binds \<open>a\<close> to 1, \<open>b\<close> to 2 and \<open>c\<close> to \<open>(3 4)\<close>. The code binds \<open>a\<close> to 1 and
  the pair \<open>(b . c)\<close>, as one key, to \<open>(2 3 4)\<close>; neither \<open>b\<close> nor \<open>c\<close> is bound, and
  looking \<open>c\<close> up from the new frame fails.
\<close>

theorem variadic_formals_two_leading:
  "make_call_frame s self formals_a_b_dot_c (scheme_list [Num 1, Num 2, Num 3, Num 4])
     = Inr (length s,
            s @ [\<lparr>inner = [(Sym ''a'', Num 1),
                           (SPair (Sym ''b'') (Sym ''c''), scheme_list [Num 2, Num 3, Num 4])],
                  parent = Some self\<rparr>])
   \<and> frame_getitem
        (create_global_frame @
           [\<lparr>inner = [(Sym ''a'', Num 1),
                      (SPair (Sym ''b'') (Sym ''c''), scheme_list [Num 2, Num 3, Num 4])],
             parent = Some 0\<rparr>]) 1 ''c''
     = Inl (SchemeError (Unknown_identifier ''c''))"
  by (simp add: formals_a_b_dot_c_def eval_simps store_simps)

text \<open>
  With one symbol before the dot the handler binds as the docstring says: \<open>(a . rest)\<close>
  binds \<open>a\<close> to the first argument and \<open>rest\<close> to the list of the others.
\<close>

lemma variadic_formals_one_leading:
  "make_call_frame s self (SPair (Sym a) (Sym r)) (SPair v vs)
     = Inr (length s,
            s @ [\<lparr>inner = (if a = r then [(Sym a, vs)] else [(Sym a, v), (Sym r, vs)]),
                  parent = Some self\<rparr>])"
  by (simp add: eval_simps)

text \<open>
  For proper lists of formals and of values \<open>make_call_frame\<close> always returns a frame,
  with the bindings of \<open>zip\<close>, whatever the two lengths are.
\<close>

lemma make_call_frame_proper_lists:
  "make_call_frame s self (scheme_list fs) (scheme_list vs)
     = Inr (new_frame s self (bind_all (zip fs vs)))"
  by (simp add: make_call_frame_def call_frame_inner_def zip_iter_def py_len_scheme_list
      py_iter_scheme_list)

text \<open>
  Claim C4 says that \<open>make_call_frame\<close> raises an arity error when the number of values
  differs from the number of formals of a proper list, or is less than the number of
  formals before the dot. The code has no such check: with the formals \<open>(a b)\<close> and the
  single value 1 it returns a frame binding \<open>a\<close> only, with three values it returns a
  frame binding \<open>a\<close> and \<open>b\<close> and drops the third, and with the formals \<open>(a b . c)\<close> and the
  single value 1 it returns a frame as well.
\<close>

theorem arity_mismatch_returns_frame:
  "make_call_frame s self formals_a_b (scheme_list [Num 1])
     = Inr (length s, s @ [\<lparr>inner = [(Sym ''a'', Num 1)], parent = Some self\<rparr>])
   \<and> make_call_frame s self formals_a_b (scheme_list [Num 1, Num 2, Num 3])
     = Inr (length s,
            s @ [\<lparr>inner = [(Sym ''a'', Num 1), (Sym ''b'', Num 2)], parent = Some self\<rparr>])
   \<and> make_call_frame s self formals_a_b_dot_c (scheme_list [Num 1])
     = Inr (length s,
            s @ [\<lparr>inner = [(Sym ''a'', Num 1), (SPair (Sym ''b'') (Sym ''c''), NULL)],
                  parent = Some self\<rparr>])"
  by (simp add: formals_a_b_def formals_a_b_dot_c_def eval_simps)

section \<open>begin\<close>

text \<open>
  A \<open>begin\<close> form with one sub-expression evaluates it and then fails; one with three
  evaluates the first, skips the second and continues with the third.
\<close>

lemma begin_single_fails:
  "scheme_eval d e env s = Inr (v, s1) \<Longrightarrow>
   scheme_eval (Suc d) (scheme_list [Sym ''begin'', e]) env s
     = Inl (SchemeError Undefined_expression)"
  by (cases d) (simp_all add: eval_simps)

lemma begin_skips_last_but_one:
  "scheme_eval d e1 env s = Inr (v, s1) \<Longrightarrow>
   scheme_eval (Suc d) (scheme_list [Sym ''begin'', e1, e2, e3]) env s
     = scheme_eval d e3 env s1"
  by (simp add: eval_simps)

text \<open>
  Claim C5 says that \<open>(begin e1 ... en)\<close> evaluates \<open>e1\<close> to \<open>e(n-1)\<close> for effect and has
  the value of \<open>en\<close>. In the code the loop counter is incremented before it is compared
  with \<open>len(vals) - 1\<close>: \<open>(begin 1)\<close> fails with "Cannot evaluate an undefined expression"
  in every environment, and \<open>(begin (define x 1) x)\<close> in the global frame fails with
  "unknown identifier: x", because the definition is not evaluated.
\<close>

theorem begin_single_expression_undefined:
  "scheme_eval (Suc (Suc k)) (scheme_list [Sym ''begin'', Num 1]) env s
     = Inl (SchemeError Undefined_expression)
   \<and> map_sum id fst (scheme_eval (Suc (Suc (Suc k)))
        (scheme_list [Sym ''begin'', scheme_list [Sym ''define'', Sym ''x'', Num 1], Sym ''x''])
        0 create_global_frame)
     = Inl (SchemeError (Unknown_identifier ''x''))"
  by (simp add: eval_simps store_simps)

section \<open>cond\<close>

text \<open>
  Claim C6 says that a \<open>cond\<close> whose selected clause has one body expression \<open>e\<close> has the
  value of \<open>e\<close>, evaluated once, so that \<open>(cond (#t (quote a)))\<close> is the symbol \<open>a\<close>. In the
  code \<open>do_cond_form\<close> evaluates \<open>e\<close> and \<open>scheme_eval\<close> evaluates the result again: in
  every environment \<open>(cond (#t (quote a)))\<close> is the value bound to \<open>a\<close>, and in the global
  frame, where \<open>a\<close> is unbound, it fails with "unknown identifier: a".
\<close>

theorem cond_single_body_evaluated_twice:
  "scheme_eval (Suc (Suc k)) cond_quote_a env s
     = bnd (frame_getitem s env ''a'') (\<lambda>v. Inr (v, s))
   \<and> map_sum id fst (scheme_eval (Suc (Suc k)) cond_quote_a 0 create_global_frame)
     = Inl (SchemeError (Unknown_identifier ''a''))"
  by (simp add: cond_quote_a_def eval_simps) (simp add: store_simps)

text \<open>The loop of \<open>do_cond_form\<close> skips the clauses that are passed over.\<close>

lemma cond_loop_passed_over:
  "passed_over ev pre env s = Some s1 \<Longrightarrow>
   cond_loop ev n i (pre @ rest) env s = cond_loop ev n (i + length pre) rest env s1"
proof (induction pre arbitrary: i s)
  case Nil
  then show ?case by simp
next
  case (Cons c pre)
  from Cons.prems obtain head body where c: "c = SPair head body"
    by (cases c) simp_all
  from Cons.prems c have h: "head \<noteq> Sym ''else''" and b: "scheme_listp body"
    by (auto split: if_splits)
  from Cons.prems c h b obtain v s' where
    ev: "ev head env s = Inr (v, s')" and t: "py_truth v = Inr False"
    and r: "passed_over ev pre env s' = Some s1"
    by (auto split: sum.splits if_splits)
  have "\<exists>k. pair_len (SPair head body) = Inr (Suc k)"
    using b by (induction body arbitrary: head) auto
  then obtain k where k: "pair_len (SPair head body) = Inr (Suc k)" by blast
  have "cond_loop ev n i ((c # pre) @ rest) env s = cond_loop ev n (Suc i) (pre @ rest) env s'"
    using c h b ev t k by (simp add: check_form_def)
  also have "\<dots> = cond_loop ev n (Suc i + length pre) rest env s1"
    using Cons.IH [OF r] by simp
  finally show ?case by simp
qed

text \<open>
  Claim C7 says that a \<open>cond\<close> form whose selected clause has a true test and no body
  expressions has the value true. In Scheme every value but \<open>#f\<close> is true
  (\<open>scheme_true\<close>), but \<open>do_cond_form\<close> tests the value with \<open>if test:\<close>, as \<open>do_if_form\<close> does:
  the integer 0 is false there. The form \<open>(cond (0))\<close> does not have the value true; in the
  global frame its evaluation fails.
\<close>

theorem cond_bodiless_zero_test_counterexample:
  "scheme_eval (Suc (Suc 0)) (scheme_list [Sym ''cond'', scheme_list [Num 0]]) 0
     create_global_frame
   = Inl (SchemeError Undefined_expression)"
  by (simp add: eval_simps)

text \<open>
  Claim C7 as amended: a \<open>cond\<close> form whose selected clause has no body expressions and a
  test whose value is true in the condition of the host language has the value true. The
  form is \<open>(cond pre... (test) post...)\<close>: the clauses \<open>pre\<close> are passed over (their tests
  have values that are false in the condition: \<open>#f\<close>, 0, the empty list), \<open>test\<close> is not
  \<open>else\<close> and evaluates to a value that is true in the condition; then the whole form
  evaluates to the boolean true, in the store left by the tests.
\<close>

theorem cond_bodiless_clause_true:
  assumes "passed_over (scheme_eval d) pre env s = Some s1"
    and "test \<noteq> Sym ''else''"
    and "scheme_eval d test env s1 = Inr (v, s2)"
    and "py_truth v = Inr True"
  shows "scheme_eval (Suc d)
           (SPair (Sym ''cond'') (scheme_list (pre @ scheme_list [test] # post))) env s
         = Inr (Boolean True, s2)"
proof -
  obtain k where d: "d = Suc k"
    using assms(3) scheme_eval_Inr_depth by blast
  let ?cl = "pre @ scheme_list [test] # post"
  have "cond_loop (scheme_eval d) (length ?cl) 0 ?cl env s
      = cond_loop (scheme_eval d) (length ?cl) (0 + length pre) (scheme_list [test] # post) env s1"
    by (rule cond_loop_passed_over [OF assms(1)])
  also have "\<dots> = Inr (Boolean True, s2)"
    using assms(2,3,4) by (simp add: check_form_def)
  finally have "do_cond_form (scheme_eval d) (scheme_list ?cl) env s = Inr (Boolean True, s2)"
    by (simp add: do_cond_form_def py_len_scheme_list pair_iter_scheme_list)
  moreover have "scheme_eval (Suc d) (SPair (Sym ''cond'') (scheme_list ?cl)) env s
      = bnd (do_cond_form (scheme_eval d) (scheme_list ?cl) env s)
          (\<lambda>(v, s1). scheme_eval d v env s1)"
    by (simp add: scheme_eval_body_def scheme_atomp_def in_LOGIC_FORMS_def LOGIC_FORMS_def
        logic_form_def scheme_listp_scheme_list)
  ultimately show ?thesis
    using scheme_eval_Boolean [of k True env s2] by (simp add: d del: scheme_eval.simps)
qed

text \<open>
  The witness of C7 is the form of the claim, \<open>(cond (#f 1) (#t) (else 2))\<close>, in the global
  frame: the clause \<open>(#f 1)\<close> is passed over, \<open>#t\<close> is true, and the value is true, not 2.
\<close>

theorem cond_bodiless_clause_true_witness:
  "passed_over (scheme_eval (Suc 0)) [scheme_list [Boolean False, Num 1]] 0 create_global_frame
     = Some create_global_frame
   \<and> scheme_eval (Suc 0) (Boolean True) 0 create_global_frame
     = Inr (Boolean True, create_global_frame)
   \<and> scheme_eval (Suc (Suc 0)) cond_bodiless 0 create_global_frame
     = Inr (Boolean True, create_global_frame)"
proof -
  have h1: "passed_over (scheme_eval (Suc 0)) [scheme_list [Boolean False, Num 1]] 0
              create_global_frame = Some create_global_frame"
    by (simp add: scheme_eval_body_def scheme_atomp_def)
  have h2: "Boolean True \<noteq> Sym ''else''"
    by simp
  have h3: "scheme_eval (Suc 0) (Boolean True) 0 create_global_frame
              = Inr (Boolean True, create_global_frame)"
    by (simp add: scheme_eval_body_def scheme_atomp_def)
  have h4: "py_truth (Boolean True) = Inr True"
    by simp
  from cond_bodiless_clause_true [OF h1 h2 h3 h4, of "[scheme_list [Sym ''else'', Num 2]]"]
  have "scheme_eval (Suc (Suc 0)) cond_bodiless 0 create_global_frame
          = Inr (Boolean True, create_global_frame)"
    by (simp add: cond_bodiless_def)
  with h1 h3 show ?thesis by blast
qed

section \<open>if\<close>

text \<open>
  Claim C10: the branch of an \<open>if\<close> form is selected by the truth of the test value in a
  Python condition. When the test evaluates to the integer 0 or to the empty list,
  \<open>do_if_form\<close> returns the alternate, and the value of the form is the value of the
  alternate in the store left by the test.
\<close>

theorem if_zero_or_empty_list_selects_alternate:
  assumes "scheme_eval d test env s = Inr (v, s1)" and "v = Num 0 \<or> v = NULL"
  shows "do_if_form (scheme_eval d) (scheme_list [test, conseq, alt]) env s = Inr (alt, s1)
       \<and> scheme_eval (Suc d) (scheme_list [Sym ''if'', test, conseq, alt]) env s
           = scheme_eval d alt env s1"
proof -
  have sel: "do_if_form (scheme_eval d) (scheme_list [test, conseq, alt]) env s = Inr (alt, s1)"
    using assms by (auto simp: do_if_form_def check_form_def)
  then show ?thesis
    by (simp add: scheme_eval_body_def scheme_atomp_def in_LOGIC_FORMS_def LOGIC_FORMS_def
        logic_form_def)
qed

text \<open>
  The witness of C10: \<open>(if 0 a 7)\<close> and \<open>(if nil a 7)\<close> in the global frame evaluate to 7;
  the consequent \<open>a\<close>, which is unbound, is not evaluated.
\<close>

theorem if_zero_or_empty_list_selects_alternate_witness:
  "scheme_eval (Suc 0) (Num 0) 0 create_global_frame = Inr (Num 0, create_global_frame)
   \<and> scheme_eval (Suc (Suc 0)) (scheme_list [Sym ''if'', Num 0, Sym ''a'', Num 7]) 0
        create_global_frame = Inr (Num 7, create_global_frame)
   \<and> scheme_eval (Suc (Suc 0)) (scheme_list [Sym ''if'', NULL, Sym ''a'', Num 7]) 0
        create_global_frame = Inr (Num 7, create_global_frame)"
proof -
  have h0: "scheme_eval (Suc 0) (Num 0) 0 create_global_frame = Inr (Num 0, create_global_frame)"
    by (simp add: scheme_eval_body_def scheme_atomp_def)
  have hn: "scheme_eval (Suc 0) NULL 0 create_global_frame = Inr (NULL, create_global_frame)"
    by (simp add: scheme_eval_body_def scheme_atomp_def)
  have h7: "scheme_eval (Suc 0) (Num 7) 0 create_global_frame = Inr (Num 7, create_global_frame)"
    by (simp add: scheme_eval_body_def scheme_atomp_def)
  have "scheme_eval (Suc (Suc 0)) (scheme_list [Sym ''if'', Num 0, Sym ''a'', Num 7]) 0
          create_global_frame = Inr (Num 7, create_global_frame)"
    using if_zero_or_empty_list_selects_alternate [OF h0, of "Sym ''a''" "Num 7"] h7
    by (simp del: scheme_eval.simps)
  moreover have "scheme_eval (Suc (Suc 0)) (scheme_list [Sym ''if'', NULL, Sym ''a'', Num 7]) 0
          create_global_frame = Inr (Num 7, create_global_frame)"
    using if_zero_or_empty_list_selects_alternate [OF hn, of "Sym ''a''" "Num 7"] h7
    by (simp del: scheme_eval.simps)
  ultimately show ?thesis using h0 by blast
qed

section \<open>Reading a dot after an open parenthesis\<close>

lemma tokenize_dot_first:
  "tokenize_line ''( . 1)'' = Tokens [Sym ''('', Sym ''.'', Num 1, Sym '')'']"
  by code_simp

text \<open>
  The other two inputs of the spec's sentence do raise a syntax error, and a dot between two
  elements builds a pair.
\<close>

lemma read_errors:
  "read_line 9 ''(1 . 2 3)'' = Some (Inl (SchemeError Too_many_elements_in_pair))"
  "read_line 9 ''(1 2'' = Some (Inl (SchemeError Unexpected_eof))"
  "read_line 9 ''(1 . 2)'' = Some (Inr (SPair (Num 1) (Num 2)))"
  by code_simp+

text \<open>
  Claim C8 says that reading \<open>( . 1)\<close> raises a syntax error. It does not: with room for
  four nested calls the reader returns the integer 1.
\<close>

theorem read_dot_first_counterexample: "read_line 4 ''( . 1)'' = Some (Inr (Num 1))"
  by code_simp

text \<open>
  Claim C8 as amended: a dot token immediately after an open parenthesis, followed by one
  expression \<open>x\<close> and the closing parenthesis, reads as \<open>x\<close>. At the dot \<open>read_tail\<close> reads
  the rest of the list, checks that it has one element and returns that element; it does
  not require an element before the dot.
\<close>

theorem read_dot_first_returns_element:
  assumes "scheme_read d b0 = Inr (x, Sym '')'' # b1)"
  shows "scheme_read (Suc (Suc (Suc d))) (Sym ''('' # Sym ''.'' # b0) = Inr (x, b1)"
proof -
  obtain k where d: "d = Suc k"
    using assms by (cases d) simp_all
  obtain t r where b0: "b0 = t # r"
    using assms d by (cases b0) (simp_all add: current_def)
  have t: "t \<noteq> Sym '')''" "t \<noteq> Sym ''.''"
    using assms d b0 by (auto simp: current_def scheme_atomp_def DELIMITERS_def)
  have tail: "read_tail d (Sym '')'' # b1) = Inr (NULL, b1)"
    by (simp add: d current_def pop_def)
  have "read_tail (Suc d) b0 = Inr (SPair x NULL, b1)"
    using assms t tail
    by (simp add: b0 current_def read_tail.simps(2) [of d]
        del: scheme_read.simps read_tail.simps(2))
  then have "read_tail (Suc (Suc d)) (Sym ''.'' # b0) = Inr (x, b1)"
    by (simp add: current_def pop_def del: read_tail.simps(2) scheme_read.simps
        add: read_tail.simps(2) [of "Suc d"])
  then show ?thesis
    by (simp add: current_def pop_def scheme_atomp_def DELIMITERS_def
        del: read_tail.simps(2) scheme_read.simps add: scheme_read.simps(2) [of "Suc (Suc d)"])
qed

text \<open>The witness of C8: the tokens of \<open>( . 1)\<close>, where \<open>x\<close> is the token 1.\<close>

theorem read_dot_first_returns_element_witness:
  "scheme_read (Suc 0) [Num 1, Sym '')''] = Inr (Num 1, [Sym '')''])
   \<and> scheme_read (Suc (Suc (Suc (Suc 0)))) [Sym ''('', Sym ''.'', Num 1, Sym '')'']
       = Inr (Num 1, [])"
proof -
  have h: "scheme_read (Suc 0) [Num 1, Sym '')''] = Inr (Num 1, [Sym '')''])"
    by (simp add: current_def pop_def scheme_atomp_def DELIMITERS_def)
  from read_dot_first_returns_element [OF h] h show ?thesis
    by blast
qed

section \<open>The recursion depth of a loop in tail position\<close>

text \<open>Lookup from a frame is not changed by frames added to the store.\<close>

lemma frame_at_append: "f < length s \<Longrightarrow> frame_at (s @ t) f = frame_at s f"
  by (simp add: frame_at_def nth_append)

lemma find_le: "find s f x = Inr g \<Longrightarrow> g \<le> f"
proof (induction s f x rule: find.induct)
  case (1 s f x)
  then show ?case
    by (subst (asm) (2) find.simps) (fastforce split: if_splits option.splits)
qed

lemma find_append: "f < length s \<Longrightarrow> find (s @ t) f x = find s f x"
proof (induction s f x rule: find.induct)
  case (1 s f x)
  show ?case
  proof (cases "parent (frame_at s f)")
    case None
    then show ?thesis
      using "1.prems" by (simp add: find.simps [of s f] find.simps [of "s @ t" f] frame_at_append)
  next
    case (Some p)
    show ?thesis
    proof (cases "p < f \<and> Sym x \<notin> fst ` set (inner (frame_at s f))")
      case True
      then have "find (s @ t) p x = find s p x"
        using "1.IH" [of p] "1.prems" Some by simp
      then show ?thesis
        using "1.prems" Some True
        by (simp add: find.simps [of s f] find.simps [of "s @ t" f] frame_at_append)
    next
      case False
      then show ?thesis
        using "1.prems" Some
        by (auto simp add: find.simps [of s f] find.simps [of "s @ t" f] frame_at_append)
    qed
  qed
qed

lemma frame_getitem_append:
  assumes "f < length s"
  shows "frame_getitem (s @ t) f x = frame_getitem s f x"
proof (cases "find s f x")
  case (Inl e)
  then show ?thesis using assms by (simp add: frame_getitem_def find_append)
next
  case (Inr g)
  then have "g < length s" using assms find_le by fastforce
  then show ?thesis using assms Inr by (simp add: frame_getitem_def find_append frame_at_append)
qed

text \<open>Lookup from a new frame: its own dictionary first, then the parent's chain.\<close>

lemma frame_getitem_child:
  assumes "f < length s"
  shows "frame_getitem (s @ [\<lparr>inner = d, parent = Some f\<rparr>]) (length s) x =
     (case map_of d (Sym x) of Some v \<Rightarrow> Inr v | None \<Rightarrow> frame_getitem s f x)"
proof (cases "map_of d (Sym x)")
  case None
  then have "Sym x \<notin> fst ` set d" by (simp add: map_of_eq_None_iff)
  then have "find (s @ [\<lparr>inner = d, parent = Some f\<rparr>]) (length s) x
      = find (s @ [\<lparr>inner = d, parent = Some f\<rparr>]) f x"
    using assms by (subst find.simps) (simp add: frame_at_def)
  then show ?thesis
    using None frame_getitem_append [OF assms, of "[\<lparr>inner = d, parent = Some f\<rparr>]" x]
    by (simp add: frame_getitem_def)
next
  case (Some v)
  then have "Sym x \<in> fst ` set d" by (metis map_of_eq_None_iff option.distinct(1))
  then have "find (s @ [\<lparr>inner = d, parent = Some f\<rparr>]) (length s) x = Inr (length s)"
    by (subst find.simps) (simp add: frame_at_def)
  then show ?thesis using Some by (simp add: frame_getitem_def frame_at_def)
qed

lemma loop_env_new_frame:
  assumes "env < length s"
    and "frame_getitem s env ''loop'' = Inr (LambdaProcedure (scheme_list [Sym ''n'']) loop_body c)"
    and "frame_getitem s env ''='' = Inr (PrimitiveProcedure PNumEq)"
    and "frame_getitem s env ''-'' = Inr (PrimitiveProcedure PSub)"
  shows "loop_env (s @ [\<lparr>inner = [(Sym ''n'', Num m)], parent = Some env\<rparr>]) (length s) m"
  using assms by (auto simp: loop_env_def frame_getitem_child)

lemma loop_env_child:
  assumes "loop_env s env n"
  shows "loop_env (s @ [\<lparr>inner = [(Sym ''n'', Num m)], parent = Some env\<rparr>]) (length s) m"
  using assms loop_env_new_frame unfolding loop_env_def by blast

text \<open>
  With room for fewer than three nested calls the body of the loop fails: the test
  \<open>(= n 0)\<close> alone needs two levels below the \<open>if\<close> form.
\<close>

lemma loop_body_small:
  "scheme_eval 0 loop_body env s = Inl RecursionError"
  "scheme_eval (Suc 0) loop_body env s = Inl RecursionError"
  "scheme_eval (Suc (Suc 0)) loop_body env s = Inl RecursionError"
  by (simp_all add: loop_body_def eval_simps)

lemma loop_body_zero:
  assumes "loop_env s env 0"
  shows "scheme_eval (Suc (Suc (Suc d))) loop_body env s = Inr (Num 0, s)"
  using assms by (auto simp add: loop_body_def eval_simps loop_env_def)

text \<open>
  One iteration: the body evaluated with room for \<open>d + 3\<close> nested calls evaluates the body
  of the next iteration, in a new frame that is a child of the current one, with room for
  \<open>d\<close>: the \<open>if\<close> form passes the call \<open>(loop (- n 1))\<close> to \<open>scheme_eval\<close> one level deeper,
  which calls \<open>scheme_apply\<close> one level deeper, which calls \<open>scheme_eval\<close> on the body one
  level deeper.
\<close>

lemma loop_body_step_body:
  assumes sym: "\<And>x env s. ev0 (Sym x) env s = bnd (frame_getitem s env x) (\<lambda>v. Inr (v, s))"
    and num: "\<And>n env s. ev0 (Num n) env s = Inr (Num n, s)"
    and sub: "\<And>a b env s. ap0 (PrimitiveProcedure PSub) (SPair (Num a) (SPair (Num b) NULL)) env s
                = Inr (Num (a - b), s)"
    and "frame_getitem s env ''loop'' = Inr (LambdaProcedure (scheme_list [Sym ''n'']) B c)"
    and "frame_getitem s env ''='' = Inr (PrimitiveProcedure PNumEq)"
    and "frame_getitem s env ''-'' = Inr (PrimitiveProcedure PSub)"
    and "frame_getitem s env ''n'' = Inr (Num (1 + int n))"
  shows "scheme_eval_body
           (scheme_eval_body (scheme_eval_body ev0 ap0) (scheme_apply_body ev0 ap0))
           (scheme_apply_body (scheme_eval_body ev0 ap0) (scheme_apply_body ev0 ap0))
           loop_body env s
       = ev0 B (length s)
           (s @ [\<lparr>inner = [(Sym ''n'', Num (int n))], parent = Some env\<rparr>])"
  using assms(4-7) by (simp add: loop_body_def eval_simps sym num sub)

lemma loop_body_step:
  assumes "loop_env s env (1 + int n)"
  shows "scheme_eval (Suc (Suc (Suc d))) loop_body env s
       = scheme_eval d loop_body (length s)
           (s @ [\<lparr>inner = [(Sym ''n'', Num (int n))], parent = Some env\<rparr>])"
proof (cases d)
  case 0
  then show ?thesis
    using assms by (auto simp add: loop_body_def eval_simps loop_env_def)
next
  case (Suc k)
  have "scheme_eval (Suc (Suc (Suc d))) loop_body env s
      = scheme_eval_body
           (scheme_eval_body (scheme_eval_body (scheme_eval d) (scheme_apply d))
              (scheme_apply_body (scheme_eval d) (scheme_apply d)))
           (scheme_apply_body (scheme_eval_body (scheme_eval d) (scheme_apply d))
              (scheme_apply_body (scheme_eval d) (scheme_apply d)))
           loop_body env s"
    by simp
  also have "\<dots> = scheme_eval d loop_body (length s)
           (s @ [\<lparr>inner = [(Sym ''n'', Num (int n))], parent = Some env\<rparr>])"
  proof -
    from assms obtain c where
      "frame_getitem s env ''loop'' = Inr (LambdaProcedure (scheme_list [Sym ''n'']) loop_body c)"
      "frame_getitem s env ''='' = Inr (PrimitiveProcedure PNumEq)"
      "frame_getitem s env ''-'' = Inr (PrimitiveProcedure PSub)"
      "frame_getitem s env ''n'' = Inr (Num (1 + int n))"
      unfolding loop_env_def by blast
    then show ?thesis
    proof (rule loop_body_step_body [rotated 3])
    show "scheme_eval d (Sym x) env s = bnd (frame_getitem s env x) (\<lambda>v. Inr (v, s))" for x env s
      by (simp add: Suc scheme_eval_body_def)
    show "scheme_eval d (Num n) env s = Inr (Num n, s)" for n env s
      by (simp add: Suc scheme_eval_body_def scheme_atomp_def)
    show "scheme_apply d (PrimitiveProcedure PSub) (SPair (Num a) (SPair (Num b) NULL)) env s
                = Inr (Num (a - b), s)" for a b env s
      by (simp add: Suc eval_simps)
    qed
  qed
  finally show ?thesis .
qed

lemma loop_body_depth:
  assumes "loop_env s env (int n)"
  shows "map_sum id fst (scheme_eval d loop_body env s)
       = (if 3 * n + 3 \<le> d then Inr (Num 0) else Inl RecursionError)"
  using assms
proof (induction n arbitrary: d s env)
  case 0
  consider "d = 0" | "d = Suc 0" | "d = Suc (Suc 0)" | k where "d = Suc (Suc (Suc k))"
    by (metis not0_implies_Suc)
  then show ?case
    using 0 by cases (simp_all add: loop_body_small loop_body_zero del: scheme_eval.simps)
next
  case (Suc n)
  consider "d = 0" | "d = Suc 0" | "d = Suc (Suc 0)" | k where "d = Suc (Suc (Suc k))"
    by (metis not0_implies_Suc)
  then show ?case
  proof cases
    case 4
    have env: "loop_env s env (1 + int n)" using Suc.prems by (simp add: add.commute)
    have "loop_env (s @ [\<lparr>inner = [(Sym ''n'', Num (int n))], parent = Some env\<rparr>]) (length s) (int n)"
      using env by (rule loop_env_child)
    from Suc.IH [OF this, of k] show ?thesis
      by (simp add: 4 loop_body_step [OF env] del: scheme_eval.simps)
  qed (simp_all add: loop_body_small del: scheme_eval.simps)
qed

text \<open>The definition of the loop leaves \<open>loop_store\<close>.\<close>

lemma define_loop_store:
  "scheme_eval (Suc j) define_loop 0 create_global_frame = Inr (PyNone, loop_store)"
  by (simp add: define_loop_def loop_body_def eval_simps do_define_form_def do_lambda_form_def
      check_formals_def loop_store_def)

lemma loop_store_getitem:
  "frame_getitem loop_store 0 ''loop'' = Inr (LambdaProcedure (scheme_list [Sym ''n'']) loop_body 0)"
  "frame_getitem loop_store 0 ''='' = Inr (PrimitiveProcedure PNumEq)"
  "frame_getitem loop_store 0 ''-'' = Inr (PrimitiveProcedure PSub)"
  "length loop_store = 1"
  by (simp_all add: loop_store_def create_global_frame_def inner_setitem_def dict_setitem_def
      frame_getitem_def find.simps frame_at_def)

lemma loop_call_unfold:
  "scheme_eval (Suc (Suc d)) (loop_call n) 0 loop_store
     = scheme_eval d loop_body 1 (loop_store @ [\<lparr>inner = [(Sym ''n'', Num (int n))], parent = Some 0\<rparr>])"
proof (cases d)
  case 0
  show ?thesis
    by (simp add: 0 loop_call_def eval_simps loop_store_getitem)
next
  case (Suc k)
  have "scheme_eval (Suc (Suc d)) (loop_call n) 0 loop_store
     = scheme_eval_body (scheme_eval_body (scheme_eval d) (scheme_apply d))
         (scheme_apply_body (scheme_eval d) (scheme_apply d)) (loop_call n) 0 loop_store"
    by simp
  also have "\<dots> = scheme_eval d loop_body 1 (loop_store @ [\<lparr>inner = [(Sym ''n'', Num (int n))], parent = Some 0\<rparr>])"
    by (simp add: loop_call_def eval_simps loop_store_getitem del: scheme_eval.simps)
  finally show ?thesis .
qed

text \<open>
  In the count of nested calls of \<open>scheme_eval\<close> and \<open>scheme_apply\<close>, the call \<open>(loop n)\<close> in
  the global frame needs room for exactly \<open>3 n + 5\<close>. The program needs at least that
  much of the Python stack, and more for the calls that are not counted.
\<close>

lemma loop_call_room:
  "map_sum id fst (scheme_eval d (loop_call n) 0 loop_store)
   = (if 3 * n + 5 \<le> d then Inr (Num 0) else Inl RecursionError)"
proof -
  have "loop_env (loop_store @ [\<lparr>inner = [(Sym ''n'', Num (int n))], parent = Some 0\<rparr>])
          (length loop_store) (int n)"
    by (rule loop_env_new_frame) (simp_all add: loop_store_getitem)
  then have env: "loop_env (loop_store @ [\<lparr>inner = [(Sym ''n'', Num (int n))], parent = Some 0\<rparr>])
          1 (int n)"
    by (simp add: loop_store_getitem)
  consider "d = 0" | "d = Suc 0" | k where "d = Suc (Suc k)"
    by (metis not0_implies_Suc)
  then show ?thesis
  proof cases
    case 1
    then show ?thesis by simp
  next
    case 2
    then show ?thesis by (simp add: loop_call_def eval_simps)
  next
    case 3
    show ?thesis
      using loop_body_depth [OF env, of k]
      by (simp add: 3 loop_call_unfold del: scheme_eval.simps)
  qed
qed

text \<open>
  Claim C2 says that the evaluator loops instead of recursing in tail position, so that a
  loop of \<open>n\<close> iterations in tail position completes for large \<open>n\<close> without a stack-depth
  failure. In the code every continuation in tail position is a nested call of
  \<open>scheme_eval\<close>. With a stack limit of 1000, Python's default, the counting loop fails
  with a RecursionError for 332 iterations, and with a limit of 10000 for 3332.
\<close>

theorem tail_loop_depth_counterexample:
  "map_sum id fst (scheme_eval 1000 (loop_call 332) 0 loop_store) = Inl RecursionError
   \<and> map_sum id fst (scheme_eval 10000 (loop_call 3332) 0 loop_store) = Inl RecursionError"
  using loop_call_room [of 1000 332] loop_call_room [of 10000 3332] by simp

text \<open>
  Claim C2 as amended: for the counting loop, a self-recursive closure whose recursive call
  is in tail position, the recursion depth grows with the number of iterations. The
  evaluation of \<open>(loop n)\<close> in the global frame nests at least \<open>3 n + 5\<close> calls of
  \<open>scheme_eval\<close> and \<open>scheme_apply\<close>: whenever the stack has room for fewer, the evaluation
  fails with a RecursionError. So for every stack limit the loop fails from some number of iterations
  on.
\<close>

theorem tail_loop_depth_grows:
  assumes "d < 3 * n + 5"
  shows "map_sum id fst (scheme_eval d (loop_call n) 0 loop_store) = Inl RecursionError"
proof -
  from assms have "\<not> 3 * n + 5 \<le> d"
    by simp
  then show ?thesis
    by (simp add: loop_call_room del: scheme_eval.simps)
qed

text \<open>
  The witness of C2: with room for 7 nested calls \<open>(loop 1)\<close>, which needs 8, fails.
\<close>

theorem tail_loop_depth_grows_witness:
  "(7::nat) < 3 * 1 + 5
   \<and> map_sum id fst (scheme_eval 7 (loop_call 1) 0 loop_store) = Inl RecursionError"
proof -
  have h: "(7::nat) < 3 * 1 + 5"
    by simp
  from tail_loop_depth_grows [OF h] h show ?thesis
    by blast
qed

section \<open>Sequential scoping of let*\<close>

text \<open>
  Evaluation only adds frames to the store and keys to the dictionaries of frames: no
  code of the evaluator removes a key. Every operation on the store is monotone in
  \<open>store_le\<close>, and so are \<open>scheme_eval\<close> and \<open>scheme_apply\<close> at every depth.
\<close>

lemma store_le_refl: "store_le s s"
  by (simp add: store_le_def)

lemma store_le_trans: "store_le s t \<Longrightarrow> store_le t u \<Longrightarrow> store_le s u"
  unfolding store_le_def by (meson order_trans less_le_trans)

lemma keys_alist_set: "fst ` set (alist_set d k v) = insert k (fst ` set d)"
  by (induction d) auto

lemma keys_at_inner_setitem:
  "f < length s \<Longrightarrow> keys_at (inner_setitem s f k v) g =
     (if g = f then insert (dict_key k) (keys_at s f) else keys_at s g)"
  by (auto simp: keys_at_def inner_setitem_def frame_at_def dict_setitem_def keys_alist_set)

lemma length_inner_setitem: "length (inner_setitem s f k v) = length s"
  by (simp add: inner_setitem_def)

lemma store_le_inner_setitem: "store_le s (inner_setitem s f k v)"
proof (cases "f < length s")
  case True
  then show ?thesis
    by (auto simp: store_le_def length_inner_setitem keys_at_inner_setitem)
next
  case False
  then show ?thesis by (simp add: inner_setitem_def store_le_refl)
qed

lemma store_le_new_frame: "new_frame s p d = (f, t) \<Longrightarrow> store_le s t"
  by (auto simp: new_frame_def store_le_def keys_at_def frame_at_def nth_append)

lemma store_le_make_call_frame: "make_call_frame s p fs vs = Inr (f, t) \<Longrightarrow> store_le s t"
  by (auto simp: make_call_frame_def elim!: bnd_InrE dest: store_le_new_frame)

lemma ev_monoD: "ev_mono ev \<Longrightarrow> ev e env s = Inr (v, t) \<Longrightarrow> store_le s t"
  unfolding ev_mono_def by blast

lemma ap_monoD: "ap_mono ap \<Longrightarrow> ap p a env s = Inr (v, t) \<Longrightarrow> store_le s t"
  unfolding ap_mono_def by blast

lemma eval_each_mono:
  "ev_mono ev \<Longrightarrow> eval_each ev exprs idx env s = Inr t \<Longrightarrow> store_le s t"
proof (induction idx arbitrary: s)
  case Nil
  then show ?case by (simp add: store_le_refl)
next
  case (Cons i idx)
  from Cons.prems(2) obtain e v s1 where
    "ev e env s = Inr (v, s1)" and "eval_each ev exprs idx env s1 = Inr t"
    by (auto elim!: bnd_InrE)
  then show ?case
    using Cons.IH Cons.prems(1) ev_monoD store_le_trans by blast
qed

lemma let_bindings_mono:
  "ev_mono ev \<Longrightarrow> let_bindings ev items env s names vals = Inr (ns, vs, t) \<Longrightarrow> store_le s t"
proof (induction items arbitrary: s names vals)
  case Nil
  then show ?case by (simp add: store_le_refl)
next
  case (Cons item items)
  from Cons.prems(2) obtain e v s1 nm where
    "ev e env s = Inr (v, s1)"
    and "let_bindings ev items env s1 (names @ [nm]) (vals @ [v]) = Inr (ns, vs, t)"
    by (auto elim!: bnd_InrE)
  then show ?case
    using Cons.IH Cons.prems(1) ev_monoD store_le_trans by blast
qed

lemma let_star_bindings_mono:
  "ev_mono ev \<Longrightarrow> let_star_bindings ev bs env s = Inr t \<Longrightarrow> store_le s t"
proof (induction bs arbitrary: s)
  case Nil
  then show ?case by (simp add: store_le_refl)
next
  case (Cons b bs)
  from Cons.prems(2) obtain e v s1 nm where
    "ev e env s = Inr (v, s1)"
    and "let_star_bindings ev bs env (inner_setitem s1 env nm v) = Inr t"
    by (auto elim!: bnd_InrE)
  then have "store_le s s1" and "store_le (inner_setitem s1 env nm v) t"
    using Cons.IH Cons.prems(1) ev_monoD by blast+
  then show ?case
    using store_le_inner_setitem store_le_trans by blast
qed

lemma and_loop_mono:
  "ev_mono ev \<Longrightarrow> and_loop ev xs err env s = Inr (v, t) \<Longrightarrow> store_le s t"
proof (induction xs arbitrary: s)
  case Nil
  then show ?case by (auto simp: store_le_refl split: option.splits)
next
  case (Cons x xs)
  from Cons.prems(2) obtain w s1 where
    "ev x env s = Inr (w, s1)"
    and "(v, t) = (Boolean False, s1) \<or> and_loop ev xs err env s1 = Inr (v, t)"
    by (auto elim!: bnd_InrE split: if_splits)
  then show ?case
    using Cons.IH Cons.prems(1) ev_monoD store_le_trans by blast
qed

lemma or_loop_mono:
  "ev_mono ev \<Longrightarrow> or_loop ev xs err env s = Inr (v, t) \<Longrightarrow> store_le s t"
proof (induction xs arbitrary: s)
  case Nil
  then show ?case by (auto simp: store_le_refl split: option.splits)
next
  case (Cons x xs)
  from Cons.prems(2) obtain w s1 where
    "ev x env s = Inr (w, s1)"
    and "(v, t) = (Boolean True, s1) \<or> or_loop ev xs err env s1 = Inr (v, t)"
    by (auto elim!: bnd_InrE split: if_splits)
  then show ?case
    using Cons.IH Cons.prems(1) ev_monoD store_le_trans by blast
qed

lemma cond_loop_mono:
  "ev_mono ev \<Longrightarrow> cond_loop ev n i cs env s = Inr (v, t) \<Longrightarrow> store_le s t"
proof (induction cs arbitrary: s i)
  case Nil
  then show ?case by (simp add: store_le_refl)
next
  case (Cons c cs)
  from Cons.prems(2) obtain head body test s1 tv where
    h: "(if head = Sym ''else'' then
           (if int i < int n - 1 then Inl (SchemeError Else_must_be_last)
            else if body = NULL then Inl (SchemeError Badly_formed_else)
            else Inr (Boolean True, s))
         else ev head env s) = Inr (test, s1)"
    and k: "(if tv then
               bnd (py_len body) (\<lambda>n.
                 if 1 < n then ev (SPair (Sym ''begin'') body) env s1
                 else if n = 1 then bnd (first body) (\<lambda>e. ev e env s1)
                 else Inr (Boolean True, s1))
             else cond_loop ev n (Suc i) cs env s1) = Inr (v, t)"
    by (auto elim!: bnd_InrE)
  from h have a: "store_le s s1"
    using Cons.prems(1) by (auto split: if_splits simp: store_le_refl dest: ev_monoD)
  from k have "store_le s1 t"
    using Cons.prems(1) Cons.IH
    by (auto elim!: bnd_InrE split: if_splits simp: store_le_refl dest: ev_monoD)
  with a show ?case by (rule store_le_trans)
qed

lemma begin_loop_mono:
  "ev_mono ev \<Longrightarrow> begin_loop ev vals i xs env s = Inr (v, t) \<Longrightarrow> store_le s t"
proof (induction xs arbitrary: s i)
  case Nil
  then show ?case by (simp add: store_le_refl)
next
  case (Cons x xs)
  from Cons.prems(2) have
    "t = s \<or> (\<exists>w s1. ev x env s = Inr (w, s1) \<and> begin_loop ev vals (Suc i) xs env s1 = Inr (v, t))"
    by (auto elim!: bnd_InrE split: if_splits)
  then show ?case
    using Cons.IH Cons.prems(1) ev_monoD store_le_trans store_le_refl by blast
qed

lemma map_eval_mono:
  "ev_mono ev \<Longrightarrow> map_eval ev xs env s = Inr (v, t) \<Longrightarrow> store_le s t"
proof (induction xs arbitrary: s v)
  case (SPair a b)
  from SPair.prems(2) obtain w s1 r where
    "ev a env s = Inr (w, s1)" and "map_eval ev b env s1 = Inr (r, t)"
    by (auto elim!: bnd_InrE split: if_splits)
  then show ?case
    using SPair.IH(2) SPair.prems(1) ev_monoD store_le_trans by blast
qed (simp_all add: store_le_refl)

lemma logic_form_mono:
  assumes "ev_mono ev" and "logic_form f ev vals env s = Inr (v, t)"
  shows "store_le s t"
proof -
  have "do_if_form ev vals env s = Inr (v, t) \<Longrightarrow> store_le s t"
    using assms(1) by (auto simp: do_if_form_def elim!: bnd_InrE split: if_splits dest: ev_monoD)
  moreover have "do_and_form ev vals env s = Inr (v, t) \<Longrightarrow> store_le s t"
    using assms(1) by (auto simp: do_and_form_def elim!: bnd_InrE dest: and_loop_mono)
  moreover have "do_or_form ev vals env s = Inr (v, t) \<Longrightarrow> store_le s t"
    using assms(1) by (auto simp: do_or_form_def elim!: bnd_InrE dest: or_loop_mono)
  moreover have "do_cond_form ev vals env s = Inr (v, t) \<Longrightarrow> store_le s t"
    using assms(1) by (auto simp: do_cond_form_def elim!: bnd_InrE dest: cond_loop_mono)
  moreover have "do_begin_form ev vals env s = Inr (v, t) \<Longrightarrow> store_le s t"
    using assms(1) by (auto simp: do_begin_form_def elim!: bnd_InrE dest: begin_loop_mono)
  moreover have "do_case_form ev vals env s = Inr (v, t) \<Longrightarrow> store_le s t"
    by (auto simp: do_case_form_def store_le_refl)
  ultimately show ?thesis
    using assms(2) by (auto simp: logic_form_def split: if_splits)
qed

lemma do_define_form_mono:
  assumes "ev_mono ev" and "do_define_form ev vals env s = Inr t"
  shows "store_le s t"
proof -
  from assms(2) have
    "(\<exists>k v. t = inner_setitem s env k v)
     \<or> (\<exists>e v s1 k. ev e env s = Inr (v, s1) \<and> t = inner_setitem s1 env k v)"
    by (fastforce simp: do_define_form_def elim!: bnd_InrE split: if_splits)
  then show ?thesis
    using assms(1) ev_monoD store_le_inner_setitem store_le_trans by blast
qed

lemma do_let_form_mono:
  assumes "ev_mono ev" and "do_let_form ev vals env s = Inr (e, env1, t)"
  shows "store_le s t"
proof -
  from assms(2) obtain items ns vs s1 s2 exprs idx where
    a: "let_bindings ev items env s [] [] = Inr (ns, vs, s1)"
    and b: "make_call_frame_py s1 env ns vs = (env1, s2)"
    and c: "eval_each ev exprs idx env1 s2 = Inr t"
    by (auto simp: do_let_form_def elim!: bnd_InrE split: if_splits prod.splits)
  have "store_le s s1" using a assms(1) by (rule let_bindings_mono [rotated])
  moreover have "store_le s1 s2" using b by (auto simp: make_call_frame_py_def dest: store_le_new_frame)
  moreover have "store_le s2 t" using c assms(1) by (rule eval_each_mono [rotated])
  ultimately show ?thesis by (blast intro: store_le_trans)
qed

lemma do_let_star_form_mono:
  assumes "ev_mono ev" and "do_let_star_form ev vals env s = Inr (e, env1, t)"
  shows "store_le s t"
proof -
  from assms(2) obtain bs new_env s1 s2 exprs idx where
    a: "make_call_frame s env NULL NULL = Inr (new_env, s1)"
    and b: "let_star_bindings ev bs new_env s1 = Inr s2"
    and c: "eval_each ev exprs idx env s2 = Inr t"
    by (auto simp: do_let_star_form_def elim!: bnd_InrE split: if_splits prod.splits)
  have "store_le s s1" using a by (rule store_le_make_call_frame)
  moreover have "store_le s1 s2" using b assms(1) by (rule let_star_bindings_mono [rotated])
  moreover have "store_le s2 t" using c assms(1) by (rule eval_each_mono [rotated])
  ultimately show ?thesis by (blast intro: store_le_trans)
qed

lemma scheme_eval_body_mono:
  assumes "ev_mono ev" and "ap_mono ap"
  shows "ev_mono (scheme_eval_body ev ap)"
  unfolding ev_mono_def
proof (intro allI impI)
  fix e env s v t
  assume r: "scheme_eval_body ev ap e env s = Inr (v, t)"
  show "store_le s t"
  proof (cases "t = s")
    case True
    then show ?thesis by (simp add: store_le_refl)
  next
    case False
    with r obtain f rest where e: "e = SPair f rest"
      by (cases e) (auto simp: scheme_eval_body_def scheme_atomp_def elim!: bnd_InrE split: if_splits)
    from r e False consider
      (c_logic) w s1 where "logic_form f ev rest env s = Inr (w, s1)" "ev w env s1 = Inr (v, t)"
    | (c_define) "do_define_form ev rest env s = Inr t"
    | (c_let) x env1 s1 where "do_let_form ev rest env s = Inr (x, env1, s1)" "ev x env1 s1 = Inr (v, t)"
    | (c_letstar) x env1 s1 where "do_let_star_form ev rest env s = Inr (x, env1, s1)" "ev x env1 s1 = Inr (v, t)"
    | (c_app) p s1 args s2 where "ev f env s = Inr (p, s1)" "map_eval ev rest env s1 = Inr (args, s2)"
        "ap p args env s2 = Inr (v, t)"
      by (auto simp: scheme_eval_body_def scheme_atomp_def elim!: bnd_InrE split: if_splits)
    then show ?thesis
    proof cases
      case c_logic
      then show ?thesis
        using assms(1) logic_form_mono ev_monoD store_le_trans by blast
    next
      case c_define
      then show ?thesis using assms(1) do_define_form_mono by blast
    next
      case c_let
      then show ?thesis
        using assms(1) do_let_form_mono ev_monoD store_le_trans by blast
    next
      case c_letstar
      then show ?thesis
        using assms(1) do_let_star_form_mono ev_monoD store_le_trans by blast
    next
      case c_app
      have "store_le s s1" using assms(1) c_app(1) by (rule ev_monoD)
      moreover have "store_le s1 s2" using assms(1) c_app(2) by (rule map_eval_mono)
      moreover have "store_le s2 t" using assms(2) c_app(3) by (rule ap_monoD)
      ultimately show ?thesis by (blast intro: store_le_trans)
    qed
  qed
qed

lemma call_fn_mono:
  assumes "ev_mono ev" and "ap_mono ap" and "call_fn ev ap p xs env s = Inr (v, t)"
  shows "store_le s t"
  using assms
  by (cases p)
     (auto simp: call_fn_def store_le_refl elim!: bnd_InrE split: list.splits
       dest: ev_monoD ap_monoD)

lemma scheme_apply_body_mono:
  assumes "ev_mono ev" and "ap_mono ap"
  shows "ap_mono (scheme_apply_body ev ap)"
  unfolding ap_mono_def
proof (intro allI impI)
  fix p a env s v t
  assume r: "scheme_apply_body ev ap p a env s = Inr (v, t)"
  show "store_le s t"
  proof (cases p)
    case (PrimitiveProcedure q)
    with r obtain xs where "call_fn ev ap q xs env s = Inr (v, t)"
      by (auto simp: scheme_apply_body_def apply_primitive_def elim!: bnd_InrE
          split: sum.splits error.splits)
    then show ?thesis using assms call_fn_mono by blast
  next
    case (LambdaProcedure fs body cenv)
    with r obtain nf s1 where "make_call_frame s env fs a = Inr (nf, s1)" "ev body nf s1 = Inr (v, t)"
      by (auto simp: scheme_apply_body_def elim!: bnd_InrE)
    then show ?thesis
      using assms(1) store_le_make_call_frame ev_monoD store_le_trans by blast
  qed (use r in \<open>simp_all add: scheme_apply_body_def\<close>)
qed

lemma scheme_eval_apply_mono: "ev_mono (scheme_eval d) \<and> ap_mono (scheme_apply d)"
proof (induction d)
  case 0
  show ?case by (simp add: ev_mono_def ap_mono_def)
next
  case (Suc d)
  then show ?case by (simp add: scheme_eval_body_mono scheme_apply_body_mono)
qed

text \<open>The binding loop of \<open>let*\<close> over two lists in sequence.\<close>

lemma let_star_bindings_append:
  "let_star_bindings ev (pre @ rest) f s
     = bnd (let_star_bindings ev pre f s) (\<lambda>s1. let_star_bindings ev rest f s1)"
proof (induction pre arbitrary: s)
  case Nil
  show ?case by simp
next
  case (Cons b pre)
  show ?case
    by (cases "py_getitem b 0"; cases "py_getitem b 1"; cases "ev (projr (py_getitem b 1)) f s")
       (auto simp: Cons.IH)
qed

lemma store_le_key:
  "store_le s t \<Longrightarrow> f < length s \<Longrightarrow> k \<in> keys_at s f \<Longrightarrow> k \<in> keys_at t f"
  unfolding store_le_def by blast

lemma store_le_length: "store_le s t \<Longrightarrow> f < length s \<Longrightarrow> f < length t"
  unfolding store_le_def by simp

lemma let_star_bindings_keys:
  assumes "ev_mono ev" and "f < length s" and "let_star_bindings ev pre f s = Inr s1"
    and "b \<in> set pre"
  shows "\<exists>k. py_getitem b 0 = Inr k \<and> dict_key k \<in> keys_at s1 f"
  using assms(2-4)
proof (induction pre arbitrary: s)
  case Nil
  then show ?case by simp
next
  case (Cons c pre)
  from Cons.prems(2) obtain k e v s' where
    k: "py_getitem c 0 = Inr k" and "py_getitem c 1 = Inr e"
    and ev: "ev e f s = Inr (v, s')"
    and rest: "let_star_bindings ev pre f (inner_setitem s' f k v) = Inr s1"
    by (auto elim!: bnd_InrE)
  have len: "f < length s'"
    using assms(1) ev Cons.prems(1) ev_monoD store_le_length by blast
  then have len': "f < length (inner_setitem s' f k v)"
    by (simp add: length_inner_setitem)
  show ?case
  proof (cases "b = c")
    case True
    have "dict_key k \<in> keys_at (inner_setitem s' f k v) f"
      using len by (simp add: keys_at_inner_setitem)
    moreover have "store_le (inner_setitem s' f k v) s1"
      using assms(1) rest by (rule let_star_bindings_mono)
    ultimately have "dict_key k \<in> keys_at s1 f"
      using len' store_le_key by blast
    with k True show ?thesis by blast
  next
    case False
    with Cons.prems(3) have "b \<in> set pre" by simp
    with Cons.IH [OF len' rest] show ?thesis by blast
  qed
qed

lemma find_own_frame: "Sym x \<in> keys_at s f \<Longrightarrow> find s f x = Inr f"
  by (subst find.simps) (simp add: keys_at_def)

text \<open>
  The handler \<open>do_let_star_form\<close> on the operands of a \<open>let*\<close> form with the bindings
  \<open>pre @ binding # post\<close> and a non-empty body. It creates the frame \<open>length s\<close> as a child
  of \<open>env\<close>. When the loop has processed \<open>pre\<close>, leaving the store \<open>s1\<close>, the handler
  continues with the evaluation of the value expression \<open>e\<close> of \<open>binding\<close> in the new frame
  and in \<open>s1\<close>; and in \<open>s1\<close> the name of every binding of \<open>pre\<close> is a key of the new frame.
\<close>

lemma let_star_form_sequential:
  assumes "py_getitem binding 0 = Inr name" and "py_getitem binding 1 = Inr e"
    and "let_star_bindings (scheme_eval d) pre (length s)
           (s @ [\<lparr>inner = [], parent = Some env\<rparr>]) = Inr s1"
  shows "do_let_star_form (scheme_eval d)
           (SPair (scheme_list (pre @ binding # post)) (scheme_list (x # xs))) env s
       = bnd (scheme_eval d e (length s) s1) (\<lambda>(v, s2).
         bnd (let_star_bindings (scheme_eval d) post (length s)
                (inner_setitem s2 (length s) name v)) (\<lambda>s3.
         bnd (eval_each (scheme_eval d) (scheme_list (x # xs)) [0 ..< length xs] env s3) (\<lambda>s4.
         bnd (py_getitem (scheme_list (x # xs)) (length xs)) (\<lambda>b. Inr (b, env, s4)))))
     \<and> (\<forall>b \<in> set pre. \<exists>k. py_getitem b 0 = Inr k
            \<and> dict_key k \<in> fst ` set (inner (frame_at s1 (length s)))
            \<and> (\<forall>y. k = Sym y \<longrightarrow> find s1 (length s) y = Inr (length s)))"
proof
  have "check_form (SPair (scheme_list (pre @ binding # post)) (scheme_list (x # xs))) 2 None = Inr ()"
    using pair_len_scheme_list [of "scheme_list (pre @ binding # post)" "x # xs"]
      scheme_listp_scheme_list [of "x # xs"]
    by (simp add: check_form_def del: pair_len.simps)
  moreover have "make_call_frame s env NULL NULL
      = Inr (length s, s @ [\<lparr>inner = [], parent = Some env\<rparr>])"
    by (simp add: make_call_frame_def call_frame_inner_def zip_iter_def bind_all_def new_frame_def)
  moreover have "py_len (scheme_list (x # xs)) = Inr (Suc (length xs))"
    using py_len_scheme_list [of "x # xs"] by simp
  ultimately show "do_let_star_form (scheme_eval d)
           (SPair (scheme_list (pre @ binding # post)) (scheme_list (x # xs))) env s
       = bnd (scheme_eval d e (length s) s1) (\<lambda>(v, s2).
         bnd (let_star_bindings (scheme_eval d) post (length s)
                (inner_setitem s2 (length s) name v)) (\<lambda>s3.
         bnd (eval_each (scheme_eval d) (scheme_list (x # xs)) [0 ..< length xs] env s3) (\<lambda>s4.
         bnd (py_getitem (scheme_list (x # xs)) (length xs)) (\<lambda>b. Inr (b, env, s4)))))"
    using assms
    by (cases "scheme_eval d e (length s) s1")
       (auto simp add: do_let_star_form_def scheme_listp_scheme_list pair_iter_scheme_list
        let_star_bindings_append simp del: pair_len.simps py_len.simps scheme_list.simps)
next
  have mono: "ev_mono (scheme_eval d)"
    using scheme_eval_apply_mono by blast
  have len: "length s < length (s @ [\<lparr>inner = [], parent = Some env\<rparr>])"
    by simp
  show "\<forall>b \<in> set pre. \<exists>k. py_getitem b 0 = Inr k
            \<and> dict_key k \<in> fst ` set (inner (frame_at s1 (length s)))
            \<and> (\<forall>y. k = Sym y \<longrightarrow> find s1 (length s) y = Inr (length s))"
  proof
    fix b assume "b \<in> set pre"
    with let_star_bindings_keys [OF mono len assms(3)]
    obtain k where k: "py_getitem b 0 = Inr k" "dict_key k \<in> keys_at s1 (length s)"
      by blast
    then have "\<forall>y. k = Sym y \<longrightarrow> find s1 (length s) y = Inr (length s)"
      using find_own_frame by auto
    with k show "\<exists>k. py_getitem b 0 = Inr k
            \<and> dict_key k \<in> fst ` set (inner (frame_at s1 (length s)))
            \<and> (\<forall>y. k = Sym y \<longrightarrow> find s1 (length s) y = Inr (length s))"
      unfolding keys_at_def by blast
  qed
qed

text \<open>The branch of \<open>scheme_eval\<close> for a form headed by \<open>let*\<close> (lines 65 to 67).\<close>

lemma bnd_assoc: "bnd (bnd m f) g = bnd m (\<lambda>x. bnd (f x) g)"
  by (cases m) simp_all

lemma let_star_dispatch:
  "scheme_eval (Suc d) (SPair (Sym ''let*'') (SPair bs (scheme_list (x # xs)))) env s
     = bnd (do_let_star_form (scheme_eval d) (SPair bs (scheme_list (x # xs))) env s)
         (\<lambda>(e, env1, s1). scheme_eval d e env1 s1)"
  using scheme_listp_scheme_list [of "x # xs"]
  by (simp add: scheme_eval_body_def scheme_atomp_def in_LOGIC_FORMS_def LOGIC_FORMS_def
      del: scheme_list.simps)

text \<open>
  Claim C9, of \<open>scheme_eval\<close> on the form \<open>(let* (pre... binding post...) x xs...)\<close>: with
  the frame \<open>length s\<close> created as a child of \<open>env\<close>, and \<open>s1\<close> the store left by the loop
  over the bindings \<open>pre\<close>, the evaluation of the form is the evaluation of the value
  expression \<open>e\<close> of \<open>binding\<close> in the new frame and in \<open>s1\<close>, followed by the rest of the
  bindings and the body; and in \<open>s1\<close> the name of every binding of \<open>pre\<close> is a key of the
  new frame, so that a symbol among them resolves in the new frame itself.
\<close>

theorem let_star_sequential:
  assumes "py_getitem binding 0 = Inr name" and "py_getitem binding 1 = Inr e"
    and "let_star_bindings (scheme_eval d) pre (length s)
           (s @ [\<lparr>inner = [], parent = Some env\<rparr>]) = Inr s1"
  shows "scheme_eval (Suc d)
           (SPair (Sym ''let*'')
              (SPair (scheme_list (pre @ binding # post)) (scheme_list (x # xs)))) env s
       = bnd (scheme_eval d e (length s) s1) (\<lambda>(v, s2).
         bnd (let_star_bindings (scheme_eval d) post (length s)
                (inner_setitem s2 (length s) name v)) (\<lambda>s3.
         bnd (eval_each (scheme_eval d) (scheme_list (x # xs)) [0 ..< length xs] env s3) (\<lambda>s4.
         bnd (py_getitem (scheme_list (x # xs)) (length xs)) (\<lambda>b.
           scheme_eval d b env s4))))
     \<and> do_let_star_form (scheme_eval d)
           (SPair (scheme_list (pre @ binding # post)) (scheme_list (x # xs))) env s
       = bnd (scheme_eval d e (length s) s1) (\<lambda>(v, s2).
         bnd (let_star_bindings (scheme_eval d) post (length s)
                (inner_setitem s2 (length s) name v)) (\<lambda>s3.
         bnd (eval_each (scheme_eval d) (scheme_list (x # xs)) [0 ..< length xs] env s3) (\<lambda>s4.
         bnd (py_getitem (scheme_list (x # xs)) (length xs)) (\<lambda>b. Inr (b, env, s4)))))
     \<and> (\<forall>b \<in> set pre. \<exists>k. py_getitem b 0 = Inr k
            \<and> dict_key k \<in> fst ` set (inner (frame_at s1 (length s)))
            \<and> (\<forall>y. k = Sym y \<longrightarrow> find s1 (length s) y = Inr (length s)))"
proof -
  note form = let_star_form_sequential [OF assms, of post x xs]
  from form have handler: "do_let_star_form (scheme_eval d)
           (SPair (scheme_list (pre @ binding # post)) (scheme_list (x # xs))) env s
       = bnd (scheme_eval d e (length s) s1) (\<lambda>(v, s2).
         bnd (let_star_bindings (scheme_eval d) post (length s)
                (inner_setitem s2 (length s) name v)) (\<lambda>s3.
         bnd (eval_each (scheme_eval d) (scheme_list (x # xs)) [0 ..< length xs] env s3) (\<lambda>s4.
         bnd (py_getitem (scheme_list (x # xs)) (length xs)) (\<lambda>b. Inr (b, env, s4)))))"
    by blast
  have "scheme_eval (Suc d)
           (SPair (Sym ''let*'')
              (SPair (scheme_list (pre @ binding # post)) (scheme_list (x # xs)))) env s
       = bnd (scheme_eval d e (length s) s1) (\<lambda>(v, s2).
         bnd (let_star_bindings (scheme_eval d) post (length s)
                (inner_setitem s2 (length s) name v)) (\<lambda>s3.
         bnd (eval_each (scheme_eval d) (scheme_list (x # xs)) [0 ..< length xs] env s3) (\<lambda>s4.
         bnd (py_getitem (scheme_list (x # xs)) (length xs)) (\<lambda>b.
           scheme_eval d b env s4))))"
    using handler
    by (simp only: let_star_dispatch)
       (simp add: bnd_assoc case_prod_unfold del: scheme_eval.simps scheme_list.simps)
  with form show ?thesis
    by blast
qed

text \<open>
  The witness of C9 is the form of the claim, \<open>(let* ((x 1) (y (+ x 1))) 0)\<close>, in the global
  frame, where \<open>x\<close> is unbound: after the binding of \<open>x\<close> the store is \<open>let_star_store\<close>,
  \<open>x\<close> resolves in the new frame 1, \<open>(+ x 1)\<close> evaluates to 2 there, \<open>y\<close> is bound to 2 and
  the form evaluates to 0.
\<close>

theorem let_star_sequential_witness:
  "let_star_bindings (scheme_eval (Suc (Suc 0))) [binding_x_1] 1
       (create_global_frame @ [\<lparr>inner = [], parent = Some 0\<rparr>]) = Inr let_star_store
   \<and> find let_star_store 1 ''x'' = Inr 1
   \<and> scheme_eval (Suc (Suc 0)) (scheme_list [Sym ''+'', Sym ''x'', Num 1]) 1 let_star_store
       = Inr (Num 2, let_star_store)
   \<and> scheme_eval (Suc (Suc (Suc 0)))
         (scheme_list [Sym ''let*'', scheme_list [binding_x_1, binding_y], Num 0]) 0
         create_global_frame
       = Inr (Num 0,
              create_global_frame @
                [\<lparr>inner = [(Sym ''x'', Num 1), (Sym ''y'', Num 2)], parent = Some 0\<rparr>])"
proof -
  have len: "length create_global_frame = 1"
    by (simp add: create_global_frame_def)
  have h1: "py_getitem binding_y 0 = Inr (Sym ''y'')"
    by (simp add: binding_y_def)
  have h2: "py_getitem binding_y 1 = Inr (scheme_list [Sym ''+'', Sym ''x'', Num 1])"
    by (simp add: binding_y_def)
  have h3: "let_star_bindings (scheme_eval (Suc (Suc 0))) [binding_x_1]
              (length create_global_frame)
              (create_global_frame @ [\<lparr>inner = [], parent = Some 0\<rparr>]) = Inr let_star_store"
    by (simp add: binding_x_1_def let_star_store_def eval_simps store_simps)
  have ev: "scheme_eval (Suc (Suc 0)) (scheme_list [Sym ''+'', Sym ''x'', Num 1]) 1 let_star_store
              = Inr (Num 2, let_star_store)"
    by (simp add: let_star_store_def eval_simps store_simps scheme_add_def arith_def)
  have upd: "inner_setitem let_star_store 1 (Sym ''y'') (Num 2)
      = create_global_frame @
          [\<lparr>inner = [(Sym ''x'', Num 1), (Sym ''y'', Num 2)], parent = Some 0\<rparr>]"
    by (simp add: let_star_store_def store_simps dict_setitem_def)
  note inst = let_star_sequential [OF h1 h2 h3, where post = "[]" and x = "Num 0" and xs = "[]"]
  from inst have "find let_star_store 1 ''x'' = Inr 1"
    by (simp add: len binding_x_1_def)
  moreover from inst have "scheme_eval (Suc (Suc (Suc 0)))
         (scheme_list [Sym ''let*'', scheme_list [binding_x_1, binding_y], Num 0]) 0
         create_global_frame
       = Inr (Num 0,
              create_global_frame @
                [\<lparr>inner = [(Sym ''x'', Num 1), (Sym ''y'', Num 2)], parent = Some 0\<rparr>])"
    using ev upd
    by (simp add: len scheme_eval_body_def scheme_atomp_def del: scheme_eval.simps
        add: scheme_eval.simps(2) [of "Suc 0"] scheme_eval.simps(2) [of 0])
  ultimately show ?thesis
    using h3 ev by (simp add: len del: scheme_eval.simps)
qed

text \<open>
  The sequential scoping covers the bindings only. The body of a \<open>let*\<close> form is evaluated
  in the outer environment: \<open>(let* ((x 1) (y (+ x 1))) x)\<close> fails in the global frame. And
  the bindings of a \<open>let\<close> form do not see each other.
\<close>

lemma let_star_body_in_outer_environment:
  "scheme_eval (Suc (Suc (Suc 0)))
     (scheme_list [Sym ''let*'', scheme_list [binding_x_1, binding_y], Sym ''x'']) 0
     create_global_frame
   = Inl (SchemeError (Unknown_identifier ''x''))"
  by (simp add: binding_x_1_def binding_y_def eval_simps store_simps scheme_add_def arith_def
      do_let_star_form_def)

lemma let_bindings_in_outer_environment:
  "map_sum id fst (scheme_eval (Suc (Suc (Suc 0)))
     (scheme_list [Sym ''let'', scheme_list [binding_x_1, binding_y], Num 0]) 0
     create_global_frame)
   = Inl (SchemeError (Unknown_identifier ''x''))"
  by (simp add: binding_x_1_def binding_y_def eval_simps store_simps scheme_add_def arith_def
      do_let_form_def)

end
